theory Spec2Isabelle
  imports Complex_Main "HOL-Library.Multiset"
begin

section \<open>Conventions of the embedding\<close>

text \<open>
  The development embeds \<^verbatim>\<open>src/overlap.py\<close>. Every exception the source can raise is
  an \<open>Inl e\<close> of a sum type. A NumPy or Python floating-point number is an element of
  \<open>np_float\<close>: a finite real, an infinity or \<^verbatim>\<open>nan\<close>; the two zeros are not told
  apart. An arithmetic operation on floats is IEEE 754 arithmetic: the exact result is
  rounded to the nearest number of the format, ties to even, and overflows to an infinity.
  \<^verbatim>\<open>norm\<close>, the mask sum, the scaling of the voxels and the factor that
  \<^verbatim>\<open>from_dicom_pet\<close> computes are embedded in this arithmetic.

  \<^verbatim>\<open>calc_factor\<close> is embedded twice. \<open>calc_factor\<close> evaluates the formulas of the source
  over the real numbers: it gives the quantities the formulas denote, and only a division
  by zero leaves the reals. \<open>calc_factor_float64\<close> evaluates the same statements in
  \<^verbatim>\<open>float64\<close>, rounding after every operation; it is the one the loader calls.
\<close>

datatype error =
    AttributeError | TypeError | ValueError | IndexError | KeyError
  | ZeroDivisionError | OSError

definition bind_result :: "error + 'a \<Rightarrow> ('a \<Rightarrow> error + 'b) \<Rightarrow> error + 'b" where
  "bind_result m f = (case m of Inl e \<Rightarrow> Inl e | Inr x \<Rightarrow> f x)"

section \<open>Floating-point numbers\<close>

text \<open>
  A binary format has \<open>precision\<close> significant bits and exponents from \<open>emin\<close> to
  \<open>emax\<close>. Numbers below \<open>2 powi emin\<close> are subnormal: they keep the spacing of the
  lowest binade.
\<close>

record float_format =
  precision :: nat
  emin :: int
  emax :: int

definition float32 :: float_format where
  "float32 = \<lparr>precision = 24, emin = - 126, emax = 127\<rparr>"

definition float64 :: float_format where
  "float64 = \<lparr>precision = 53, emin = - 1022, emax = 1023\<rparr>"

definition round_half_even :: "real \<Rightarrow> int" where
  "round_half_even q =
     (let f = \<lfloor>q\<rfloor>
      in if q - of_int f < 1 / 2 then f
         else if 1 / 2 < q - of_int f then f + 1
         else if even f then f else f + 1)"

definition float_ulp :: "float_format \<Rightarrow> real \<Rightarrow> real" where
  \<comment> \<open>the spacing of the format's numbers in the binade of \<open>x\<close>\<close>
  "float_ulp fmt x = 2 powi (max \<lfloor>log 2 \<bar>x\<bar>\<rfloor> (emin fmt) - (int (precision fmt) - 1))"

definition float_round :: "float_format \<Rightarrow> real \<Rightarrow> real" where
  \<comment> \<open>round to nearest, ties to even, with no bound on the exponent\<close>
  "float_round fmt x =
     (if x = 0 then 0
      else of_int (round_half_even (x / float_ulp fmt x)) * float_ulp fmt x)"

definition valid_format :: "float_format \<Rightarrow> bool" where
  "valid_format fmt = (1 \<le> precision fmt \<and> emin fmt \<le> 0 \<and> 0 \<le> emax fmt)"

definition representable :: "float_format \<Rightarrow> real \<Rightarrow> bool" where
  \<comment> \<open>\<open>x\<close> is a finite number of the format\<close>
  "representable fmt x = (float_round fmt x = x \<and> \<bar>x\<bar> < 2 powi (emax fmt + 1))"

datatype np_float = Finite real | PInf | NInf | NaN

definition to_np_float :: "float_format \<Rightarrow> real \<Rightarrow> np_float" where
  \<comment> \<open>the float of the format for an exact result: a rounded value past the largest
      finite number is an infinity\<close>
  "to_np_float fmt x =
     (let r = float_round fmt x
      in if 2 powi (emax fmt + 1) \<le> r then PInf
         else if r \<le> - (2 powi (emax fmt + 1)) then NInf
         else Finite r)"

fun np_negative :: "np_float \<Rightarrow> np_float" where
  "np_negative (Finite x) = Finite (- x)"
| "np_negative PInf = NInf"
| "np_negative NInf = PInf"
| "np_negative NaN = NaN"

fun np_absolute :: "np_float \<Rightarrow> np_float" where
  "np_absolute (Finite x) = Finite \<bar>x\<bar>"
| "np_absolute PInf = PInf"
| "np_absolute NInf = PInf"
| "np_absolute NaN = NaN"

fun np_add :: "float_format \<Rightarrow> np_float \<Rightarrow> np_float \<Rightarrow> np_float" where
  "np_add fmt (Finite x) (Finite y) = to_np_float fmt (x + y)"
| "np_add fmt NaN b = NaN"
| "np_add fmt a NaN = NaN"
| "np_add fmt PInf NInf = NaN"
| "np_add fmt NInf PInf = NaN"
| "np_add fmt PInf b = PInf"
| "np_add fmt a PInf = PInf"
| "np_add fmt NInf b = NInf"
| "np_add fmt a NInf = NInf"

definition np_subtract :: "float_format \<Rightarrow> np_float \<Rightarrow> np_float \<Rightarrow> np_float" where
  "np_subtract fmt a b = np_add fmt a (np_negative b)"

fun np_divide :: "float_format \<Rightarrow> np_float \<Rightarrow> np_float \<Rightarrow> np_float" where
  "np_divide fmt (Finite x) (Finite y) =
     (if y = 0 then (if x = 0 then NaN else if 0 < x then PInf else NInf)
      else to_np_float fmt (x / y))"
| "np_divide fmt NaN b = NaN"
| "np_divide fmt a NaN = NaN"
| "np_divide fmt (Finite x) b = Finite 0"
| "np_divide fmt PInf (Finite y) = (if 0 \<le> y then PInf else NInf)"
| "np_divide fmt NInf (Finite y) = (if 0 \<le> y then NInf else PInf)"
| "np_divide fmt a b = NaN"

fun np_minimum :: "np_float \<Rightarrow> np_float \<Rightarrow> np_float" where
  "np_minimum NaN b = NaN"
| "np_minimum a NaN = NaN"
| "np_minimum NInf b = NInf"
| "np_minimum a NInf = NInf"
| "np_minimum PInf b = b"
| "np_minimum a PInf = a"
| "np_minimum (Finite x) (Finite y) = Finite (min x y)"

fun np_maximum :: "np_float \<Rightarrow> np_float \<Rightarrow> np_float" where
  "np_maximum NaN b = NaN"
| "np_maximum a NaN = NaN"
| "np_maximum PInf b = PInf"
| "np_maximum a PInf = PInf"
| "np_maximum NInf b = b"
| "np_maximum a NInf = a"
| "np_maximum (Finite x) (Finite y) = Finite (max x y)"

fun np_greater :: "np_float \<Rightarrow> real \<Rightarrow> bool" where
  "np_greater (Finite x) y = (y < x)"
| "np_greater PInf y = True"
| "np_greater NInf y = False"
| "np_greater NaN y = False"

fun np_multiply :: "float_format \<Rightarrow> np_float \<Rightarrow> np_float \<Rightarrow> np_float" where
  "np_multiply fmt (Finite x) (Finite y) = to_np_float fmt (x * y)"
| "np_multiply fmt NaN b = NaN"
| "np_multiply fmt a NaN = NaN"
| "np_multiply fmt (Finite x) PInf = (if x = 0 then NaN else if 0 < x then PInf else NInf)"
| "np_multiply fmt (Finite x) NInf = (if x = 0 then NaN else if 0 < x then NInf else PInf)"
| "np_multiply fmt PInf (Finite y) = (if y = 0 then NaN else if 0 < y then PInf else NInf)"
| "np_multiply fmt NInf (Finite y) = (if y = 0 then NaN else if 0 < y then NInf else PInf)"
| "np_multiply fmt PInf PInf = PInf"
| "np_multiply fmt NInf NInf = PInf"
| "np_multiply fmt PInf NInf = NInf"
| "np_multiply fmt NInf PInf = NInf"

fun np_exp :: "np_float \<Rightarrow> np_float" where
  \<comment> \<open>\<^verbatim>\<open>np.exp\<close> on a \<^verbatim>\<open>float64\<close>, taken as correctly rounded: it overflows to
      \<^verbatim>\<open>inf\<close> and underflows to zero\<close>
  "np_exp (Finite x) = to_np_float float64 (exp x)"
| "np_exp PInf = PInf"
| "np_exp NInf = Finite 0"
| "np_exp NaN = NaN"

definition np_log2 :: real where
  \<comment> \<open>\<^verbatim>\<open>np.log(2)\<close>\<close>
  "np_log2 = float_round float64 (ln 2)"

fun cast_to :: "float_format \<Rightarrow> np_float \<Rightarrow> np_float" where
  \<comment> \<open>the conversion of a number to the format\<close>
  "cast_to fmt (Finite x) = to_np_float fmt x"
| "cast_to fmt v = v"

definition finite_between :: "real \<Rightarrow> real \<Rightarrow> np_float \<Rightarrow> bool" where
  \<comment> \<open>a finite float between two bounds\<close>
  "finite_between lo hi v = (case v of Finite r \<Rightarrow> lo \<le> r \<and> r \<le> hi | _ \<Rightarrow> False)"

definition np_true_divide :: "real \<Rightarrow> real \<Rightarrow> np_float" where
  \<comment> \<open>\<^verbatim>\<open>x / y\<close> where an operand is a \<^verbatim>\<open>numpy.float64\<close>: a zero divisor gives
      \<^verbatim>\<open>inf\<close> or \<^verbatim>\<open>nan\<close> and a warning, no exception\<close>
  "np_true_divide x y =
     (if y = 0 then (if x = 0 then NaN else if 0 < x then PInf else NInf)
      else Finite (x / y))"

definition float_truediv :: "real \<Rightarrow> real \<Rightarrow> error + real" where
  \<comment> \<open>\<^verbatim>\<open>x / y\<close> on Python's own \<^verbatim>\<open>int\<close> and \<^verbatim>\<open>float\<close>\<close>
  "float_truediv x y = (if y = 0 then Inl ZeroDivisionError else Inr (x / y))"

definition float_truediv_float64 :: "real \<Rightarrow> real \<Rightarrow> error + np_float" where
  \<comment> \<open>the same division with its result rounded to \<^verbatim>\<open>float64\<close>\<close>
  "float_truediv_float64 x y =
     (if y = 0 then Inl ZeroDivisionError else Inr (to_np_float float64 (x / y)))"

section \<open>DICOM headers\<close>

text \<open>
  \<^verbatim>\<open>datetime.datetime.strptime(s, '%H%M%S.%f')\<close> yields a time of day on
  1900-01-01. \<^verbatim>\<open>(t1 - t0).seconds\<close> is the seconds field of the normalised
  \<^verbatim>\<open>timedelta\<close>: the difference in microseconds, reduced modulo one day, without its
  microseconds.
\<close>

record datetime =
  hour :: nat
  minute :: nat
  second :: nat
  microsecond :: nat

definition microseconds_of_day :: "datetime \<Rightarrow> int" where
  "microseconds_of_day t =
     ((int (hour t) * 60 + int (minute t)) * 60 + int (second t)) * 1000000
       + int (microsecond t)"

definition timedelta_seconds :: "datetime \<Rightarrow> datetime \<Rightarrow> int" where
  \<comment> \<open>\<^verbatim>\<open>(t1 - t0).seconds\<close>\<close>
  "timedelta_seconds t1 t0 =
     ((microseconds_of_day t1 - microseconds_of_day t0) mod 86400000000) div 1000000"

text \<open>
  A header field holds the outcome of the attribute access together with the conversion
  the source applies to it (\<^verbatim>\<open>float(...)\<close> or \<^verbatim>\<open>strptime(..., '%H%M%S.%f')\<close>):
  \<open>Inl e\<close> when the attribute is absent or the conversion raises.
\<close>

record radiopharmaceutical =
  RadiopharmaceuticalStartTime :: "error + datetime"
  RadionuclideHalfLife :: "error + real"
  RadionuclideTotalDose :: "error + real"

datatype json_value = JNumber np_float | JString string | JNull

record json_element =
  vr :: string
  Value :: "json_value list option"

record header =
  PatientWeight :: "error + real"
  AcquisitionTime :: "error + datetime"
  RadiopharmaceuticalInformationSequence :: "error + radiopharmaceutical list"
  to_json_dict :: "error + (string \<Rightarrow> json_element option)"

section \<open>\<^verbatim>\<open>calc_factor\<close>\<close>

definition patient_weight :: "header \<Rightarrow> real" where
  \<comment> \<open>the first \<^verbatim>\<open>try\<close> of \<^verbatim>\<open>calc_factor\<close>\<close>
  "patient_weight df =
     (case PatientWeight df of Inr w \<Rightarrow> w * 1000 | Inl _ \<Rightarrow> 75000)"

definition sequence_item0 :: "header \<Rightarrow> error + radiopharmaceutical" where
  \<comment> \<open>\<^verbatim>\<open>df.RadiopharmaceuticalInformationSequence[0]\<close>\<close>
  "sequence_item0 df =
     bind_result (RadiopharmaceuticalInformationSequence df)
       (\<lambda>items. case items of [] \<Rightarrow> Inl IndexError | item # _ \<Rightarrow> Inr item)"

definition decay_from_header :: "header \<Rightarrow> error + real \<times> real" where
  \<comment> \<open>the body of the second \<^verbatim>\<open>try\<close>: the pair \<^verbatim>\<open>(a, injected_dose_decay)\<close>\<close>
  "decay_from_header df =
     bind_result (AcquisitionTime df) (\<lambda>scan_time.
     bind_result (sequence_item0 df) (\<lambda>item0.
     bind_result (RadiopharmaceuticalStartTime item0) (\<lambda>injection_time.
     bind_result (sequence_item0 df) (\<lambda>item1.
     bind_result (RadionuclideHalfLife item1) (\<lambda>half_life.
     bind_result (sequence_item0 df) (\<lambda>item2.
     bind_result (RadionuclideTotalDose item2) (\<lambda>injected_dose.
     bind_result (float_truediv (real_of_int (timedelta_seconds scan_time injection_time)) half_life)
       (\<lambda>q. let a = exp (- ln 2 * q) in Inr (a, a * injected_dose)))))))))"

definition decay_average :: "real \<times> real" where
  \<comment> \<open>the \<^verbatim>\<open>except\<close> branch of the second \<^verbatim>\<open>try\<close>\<close>
  "decay_average =
     (let a = exp (- ln 2 * (1.75 * 3600) / 6588) in (a, 420000000 * a))"

definition decay_block :: "header \<Rightarrow> real \<times> real" where
  \<comment> \<open>the second \<^verbatim>\<open>try\<close>/\<^verbatim>\<open>except\<close> as a whole\<close>
  "decay_block df =
     (case decay_from_header df of Inr r \<Rightarrow> r | Inl _ \<Rightarrow> decay_average)"

definition calc_factor :: "header \<Rightarrow> string \<Rightarrow> np_float" where
  "calc_factor df type =
     (let weight = patient_weight df;
          (a, injected_dose_decay) = decay_block df;
          suv = np_true_divide weight injected_dose_decay
      in if type = ''SUV'' then suv else np_true_divide 1 a)"

section \<open>\<^verbatim>\<open>calc_factor\<close> in \<^verbatim>\<open>float64\<close>\<close>

text \<open>
  The statements of \<^verbatim>\<open>calc_factor\<close> once more, each operation rounded to
  \<^verbatim>\<open>float64\<close>. \<^verbatim>\<open>float(df.PatientWeight) * 1000\<close> and the division of the seconds
  by the half-life are operations of Python's \<^verbatim>\<open>float\<close>; every other operation has a
  \<^verbatim>\<open>numpy.float64\<close> operand, so a zero divisor gives \<^verbatim>\<open>inf\<close> or \<^verbatim>\<open>nan\<close>.
\<close>

definition patient_weight_float64 :: "header \<Rightarrow> np_float" where
  "patient_weight_float64 df =
     (case PatientWeight df of
        Inr w \<Rightarrow> np_multiply float64 (Finite w) (Finite 1000)
      | Inl _ \<Rightarrow> Finite 75000)"

definition decay_from_header_float64 :: "header \<Rightarrow> error + np_float \<times> np_float" where
  "decay_from_header_float64 df =
     bind_result (AcquisitionTime df) (\<lambda>scan_time.
     bind_result (sequence_item0 df) (\<lambda>item0.
     bind_result (RadiopharmaceuticalStartTime item0) (\<lambda>injection_time.
     bind_result (sequence_item0 df) (\<lambda>item1.
     bind_result (RadionuclideHalfLife item1) (\<lambda>half_life.
     bind_result (sequence_item0 df) (\<lambda>item2.
     bind_result (RadionuclideTotalDose item2) (\<lambda>injected_dose.
     bind_result
       (float_truediv_float64 (real_of_int (timedelta_seconds scan_time injection_time)) half_life)
       (\<lambda>q. let a = np_exp (np_multiply float64 (Finite (- np_log2)) q)
            in Inr (a, np_multiply float64 a (Finite injected_dose))))))))))"

definition decay_average_float64 :: "np_float \<times> np_float" where
  "decay_average_float64 =
     (let a = np_exp (np_divide float64
                (np_multiply float64 (Finite (- np_log2))
                   (np_multiply float64 (Finite 1.75) (Finite 3600)))
                (Finite 6588))
      in (a, np_multiply float64 (Finite 420000000) a))"

definition decay_block_float64 :: "header \<Rightarrow> np_float \<times> np_float" where
  "decay_block_float64 df =
     (case decay_from_header_float64 df of Inr r \<Rightarrow> r | Inl _ \<Rightarrow> decay_average_float64)"

definition calc_factor_float64 :: "header \<Rightarrow> string \<Rightarrow> np_float" where
  "calc_factor_float64 df type =
     (let weight = patient_weight_float64 df;
          (a, injected_dose_decay) = decay_block_float64 df;
          suv = np_divide float64 weight injected_dose_decay
      in if type = ''SUV'' then suv else np_divide float64 (Finite 1) a)"

section \<open>Arrays\<close>

text \<open>
  A three-dimensional NumPy array is a list of planes, each a list of rows. An axis of
  length zero is an empty list, so the extents of the axes inside it are not recorded.
\<close>

type_synonym 'a volume = "'a list list list"

definition shape3 :: "'a volume \<Rightarrow> nat \<times> nat \<times> nat" where
  \<comment> \<open>\<^verbatim>\<open>x.shape\<close>\<close>
  "shape3 x =
     (length x,
      (case x of [] \<Rightarrow> 0 | p # _ \<Rightarrow> length p),
      (case x of [] \<Rightarrow> 0 | p # _ \<Rightarrow> (case p of [] \<Rightarrow> 0 | r # _ \<Rightarrow> length r)))"

definition has_shape3 :: "nat \<times> nat \<times> nat \<Rightarrow> 'a volume \<Rightarrow> bool" where
  "has_shape3 s x =
     (case s of (Z, Y, X) \<Rightarrow>
        length x = Z \<and> (\<forall>p \<in> set x. length p = Y \<and> (\<forall>r \<in> set p. length r = X)))"

definition map3 :: "('a \<Rightarrow> 'b) \<Rightarrow> 'a volume \<Rightarrow> 'b volume" where
  "map3 f x = map (map (map f)) x"

definition ravel :: "'a volume \<Rightarrow> 'a list" where
  "ravel x = concat (concat x)"

section \<open>\<^verbatim>\<open>norm\<close>\<close>

definition amin :: "np_float list \<Rightarrow> error + np_float" where
  \<comment> \<open>\<^verbatim>\<open>np.min\<close>: raises on an empty array, \<^verbatim>\<open>nan\<close> if any element is\<close>
  "amin xs = (case xs of [] \<Rightarrow> Inl ValueError | v # vs \<Rightarrow> Inr (fold np_minimum vs v))"

definition amax :: "np_float list \<Rightarrow> error + np_float" where
  "amax xs = (case xs of [] \<Rightarrow> Inl ValueError | v # vs \<Rightarrow> Inr (fold np_maximum vs v))"

definition norm_np :: "float_format \<Rightarrow> np_float volume \<Rightarrow> error + np_float volume" where
  \<comment> \<open>\<^verbatim>\<open>(x - np.min(x))/(np.max(x) - np.min(x))\<close> on an array of the given format\<close>
  "norm_np fmt x =
     bind_result (amin (ravel x)) (\<lambda>lo.
     bind_result (amax (ravel x)) (\<lambda>hi.
       Inr (map3 (\<lambda>v. np_divide fmt (np_subtract fmt v lo) (np_subtract fmt hi lo)) x)))"

section \<open>\<^verbatim>\<open>get_tiff_masks_as_numpy\<close>\<close>

definition zeros :: "nat \<times> nat \<times> nat \<Rightarrow> np_float volume" where
  \<comment> \<open>\<^verbatim>\<open>np.zeros(shape)\<close>, an array of \<^verbatim>\<open>float64\<close>\<close>
  "zeros s = (case s of (Z, Y, X) \<Rightarrow> replicate Z (replicate Y (replicate X (Finite 0))))"

definition flip0 :: "'a volume \<Rightarrow> 'a volume" where
  \<comment> \<open>\<^verbatim>\<open>np.flip(x, 0)\<close>\<close>
  "flip0 x = rev x"

fun traverse :: "('a \<Rightarrow> error + 'b) \<Rightarrow> 'a list \<Rightarrow> error + 'b list" where
  "traverse f [] = Inr []"
| "traverse f (x # xs) =
     bind_result (f x) (\<lambda>y. bind_result (traverse f xs) (\<lambda>ys. Inr (y # ys)))"

definition broadcast_axis :: "nat \<Rightarrow> 'a list \<Rightarrow> error + 'a list" where
  \<comment> \<open>NumPy broadcasting along one axis: equal extents, or an extent of one repeated\<close>
  "broadcast_axis n xs =
     (if length xs = n then Inr xs
      else (case xs of [x] \<Rightarrow> Inr (replicate n x) | _ \<Rightarrow> Inl ValueError))"

definition broadcast_to :: "nat \<times> nat \<times> nat \<Rightarrow> 'a volume \<Rightarrow> error + 'a volume" where
  "broadcast_to s x =
     (case s of (Z, Y, X) \<Rightarrow>
        bind_result
          (traverse (\<lambda>p. bind_result (traverse (broadcast_axis X) p) (broadcast_axis Y)) x)
          (broadcast_axis Z))"

definition add3 :: "np_float volume \<Rightarrow> real volume \<Rightarrow> np_float volume" where
  \<comment> \<open>\<^verbatim>\<open>mask += b\<close>: each voxel of \<open>b\<close> is converted to \<^verbatim>\<open>float64\<close> and added\<close>
  "add3 x b = map2 (map2 (map2 (\<lambda>a v. np_add float64 a (to_np_float float64 v)))) x b"


definition is_count :: "real \<Rightarrow> real \<Rightarrow> bool" where
  \<comment> \<open>a whole number from 0 to \<open>B\<close>\<close>
  "is_count B v = (0 \<le> v \<and> v \<le> B \<and> real_of_int \<lfloor>v\<rfloor> = v)"

definition where_gt :: "real \<Rightarrow> np_float volume \<Rightarrow> int volume" where
  \<comment> \<open>\<^verbatim>\<open>np.where(mask > epsilon, 1, 0)\<close>\<close>
  "where_gt epsilon x = map3 (\<lambda>v. if np_greater v epsilon then 1 else 0) x"

section \<open>The imaging library and the file system\<close>

text \<open>
  The image library, the DICOM parser, the TIFF reader, the directory listing and
  Python's \<^verbatim>\<open>float\<close> on a string are parameters of the model. An image is its voxel
  array (what \<^verbatim>\<open>sitk.GetArrayFromImage\<close> returns) with its geometry, which only the
  library reads. A TIFF image holds finite numbers.
\<close>

record 'g image =
  voxels :: "np_float volume"
  geometry :: 'g

record 'g world =
  read_image :: "string \<Rightarrow> string option \<Rightarrow> error + 'g image"
  listdir :: "string \<Rightarrow> error + string list"
  Path_as_posix :: "string \<Rightarrow> string \<Rightarrow> string"
  dcmread :: "string \<Rightarrow> error + header"
  float_str :: "string \<Rightarrow> error + np_float"
  Resample :: "'g image \<Rightarrow> 'g image \<Rightarrow> error + 'g image"
  imread :: "string \<Rightarrow> error + real volume"

fun accumulate_masks ::
  "'g world \<Rightarrow> nat \<times> nat \<times> nat \<Rightarrow> np_float volume \<Rightarrow> string list \<Rightarrow> error + np_float volume" where
  "accumulate_masks w s acc [] = Inr acc"
| "accumulate_masks w s acc (path # paths) =
     bind_result (imread w path) (\<lambda>img.
     bind_result (broadcast_to s (flip0 img)) (\<lambda>b.
       accumulate_masks w s (add3 acc b) paths))"

definition get_tiff_masks_as_numpy ::
  "'g world \<Rightarrow> string list \<Rightarrow> nat \<times> nat \<times> nat \<Rightarrow> real \<Rightarrow> error + int volume" where
  "get_tiff_masks_as_numpy w paths mask_shape epsilon =
     bind_result (accumulate_masks w mask_shape (zeros mask_shape) paths)
       (\<lambda>mask. Inr (where_gt epsilon mask))"

section \<open>\<^verbatim>\<open>from_dicom_pet\<close>\<close>

record 'g loaded =
  img_pet :: "'g image"
  df :: header
  factor :: json_value
  calc :: bool

definition vendor_factor :: "header \<Rightarrow> string \<Rightarrow> error + json_value" where
  \<comment> \<open>the body of the \<^verbatim>\<open>try\<close>: \<^verbatim>\<open>df.to_json_dict()[tag]['Value'][0]\<close>\<close>
  "vendor_factor d type =
     bind_result (to_json_dict d) (\<lambda>dict.
       case dict (if type = ''SUV'' then ''70531000'' else ''70531009'') of
         None \<Rightarrow> Inl KeyError
       | Some element \<Rightarrow>
           (case Value element of
              None \<Rightarrow> Inl KeyError
            | Some [] \<Rightarrow> Inl IndexError
            | Some (v # _) \<Rightarrow> Inr v))"

definition factor_and_calc :: "header \<Rightarrow> string \<Rightarrow> json_value \<times> bool" where
  \<comment> \<open>\<^verbatim>\<open>calc = False\<close>, then the \<^verbatim>\<open>try\<close>/\<^verbatim>\<open>except\<close> that sets \<^verbatim>\<open>factor\<close> and \<^verbatim>\<open>calc\<close>\<close>
  "factor_and_calc d type =
     (case vendor_factor d type of
        Inr v \<Rightarrow> (v, False)
      | Inl _ \<Rightarrow> (JNumber (calc_factor_float64 d type), True))"

definition float_operand :: "'g world \<Rightarrow> json_value \<Rightarrow> error + np_float" where
  \<comment> \<open>\<^verbatim>\<open>img_pet * factor\<close>: the image library multiplies by \<^verbatim>\<open>float(factor)\<close>\<close>
  "float_operand w v =
     (case v of JNumber x \<Rightarrow> Inr x | JString s \<Rightarrow> float_str w s | JNull \<Rightarrow> Inl TypeError)"

definition abs_times :: "'g image \<Rightarrow> np_float \<Rightarrow> 'g image" where
  \<comment> \<open>\<^verbatim>\<open>sitk.Abs(sitk.Cast(pet, sitk.sitkFloat32) * factor)\<close>: the product of a voxel
      and the factor is a \<^verbatim>\<open>float32\<close>\<close>
  "abs_times pet f =
     pet\<lparr>voxels :=
       map3 (\<lambda>v. np_absolute (np_multiply float32 (cast_to float32 v) f)) (voxels pet)\<rparr>"

definition from_dicom_pet ::
  "'g world \<Rightarrow> string \<Rightarrow> string option \<Rightarrow> string \<Rightarrow> error + 'g loaded" where
  "from_dicom_pet w path series_id type =
     bind_result (read_image w path series_id) (\<lambda>pet.
     bind_result (listdir w path) (\<lambda>names.
     bind_result (case names of [] \<Rightarrow> Inl IndexError | name # _ \<Rightarrow> Inr name) (\<lambda>name.
     bind_result (dcmread w (Path_as_posix w path name)) (\<lambda>d.
       (case factor_and_calc d type of (v, c) \<Rightarrow>
          bind_result (float_operand w v) (\<lambda>f.
            Inr \<lparr>img_pet = abs_times pet f, df = d, factor = v, calc = c\<rparr>))))))"

definition measured_vs_assumed :: "'g loaded \<Rightarrow> bool" where
  \<comment> \<open>the specification's name for the provenance flag: the negation of \<^verbatim>\<open>calc\<close>\<close>
  "measured_vs_assumed r = (\<not> calc r)"

section \<open>\<^verbatim>\<open>get_reg_numpy_B2A\<close>\<close>

definition get_reg_numpy_B2A ::
  "'g world \<Rightarrow> string \<Rightarrow> string \<Rightarrow> bool \<Rightarrow> error + np_float volume \<times> np_float volume" where
  \<comment> \<open>the arrays of the images are \<^verbatim>\<open>float32\<close>, the type \<^verbatim>\<open>from_dicom_pet\<close> casts to\<close>
  "get_reg_numpy_B2A w path_A path_B normalize' =
     bind_result (from_dicom_pet w path_A None ''SUV'') (\<lambda>loaded_A.
     bind_result (from_dicom_pet w path_B None ''SUV'') (\<lambda>loaded_B.
     bind_result (Resample w (img_pet loaded_B) (img_pet loaded_A)) (\<lambda>img_B.
       let A = voxels (img_pet loaded_A); B = voxels img_B
       in if normalize'
          then bind_result (norm_np float32 A) (\<lambda>A'.
               bind_result (norm_np float32 B) (\<lambda>B'. Inr (A', B')))
          else Inr (A, B))))"

section \<open>\<^verbatim>\<open>generate_data\<close>\<close>

type_synonym batch = "np_float list list list list"

definition moveaxis01 :: "'a list list \<Rightarrow> 'a list list" where
  \<comment> \<open>\<^verbatim>\<open>np.moveaxis(x, 0, 1)\<close> for an array with a first axis that is not empty\<close>
  "moveaxis01 x =
     (case x of [] \<Rightarrow> [] | c # _ \<Rightarrow> map (\<lambda>i. map (\<lambda>ch. ch ! i) x) [0..<length c])"

definition stack3 ::
  "np_float volume \<Rightarrow> np_float volume \<Rightarrow> int volume \<Rightarrow> error + batch" where
  \<comment> \<open>\<^verbatim>\<open>np.array([PET,CT,mask])\<close>: the three arrays must have one shape\<close>
  "stack3 PET CT msk =
     (if shape3 PET = shape3 CT \<and> shape3 CT = shape3 msk
      then Inr [PET, CT, map3 (\<lambda>n. Finite (real_of_int n)) msk]
      else Inl ValueError)"

definition concatenate0 :: "batch \<Rightarrow> batch \<Rightarrow> error + batch" where
  \<comment> \<open>\<^verbatim>\<open>np.concatenate([data, new], 0)\<close>: the axes after the first must agree\<close>
  "concatenate0 data new =
     (case (data, new) of
        (d # _, n # _) \<Rightarrow> if shape3 d = shape3 n then Inr (data @ new) else Inl ValueError
      | _ \<Rightarrow> Inr (data @ new))"

definition patient_arrays ::
  "'g world \<Rightarrow> string \<Rightarrow> string list \<Rightarrow>
     error + np_float volume \<times> np_float volume \<times> int volume" where
  \<comment> \<open>the loop body of \<^verbatim>\<open>generate_data\<close> up to the mask: \<^verbatim>\<open>(PET, CT, mask)\<close>\<close>
  "patient_arrays w root_path patient =
     (case patient of
        p0 # p1 # p2 # p3 # p4 # _ \<Rightarrow>
          (let path_ct = root_path @ p0;
               path_pet = root_path @ p1;
               mask_L_lung = root_path @ p2 @ ''.tif'';
               mask_N_lung = root_path @ p3 @ ''.tif'';
               mask_R_lung = root_path @ p4 @ ''.tif''
           in bind_result (get_reg_numpy_B2A w path_pet path_ct True) (\<lambda>(PET, CT).
              bind_result
                (get_tiff_masks_as_numpy w [mask_L_lung, mask_N_lung, mask_R_lung]
                   (shape3 PET) 0.5)
                (\<lambda>mask. Inr (PET, CT, mask))))
      | _ \<Rightarrow> Inl IndexError)"

definition patient_batch :: "'g world \<Rightarrow> string \<Rightarrow> string list \<Rightarrow> error + batch" where
  \<comment> \<open>\<^verbatim>\<open>np.moveaxis(np.array([PET,CT,mask]), 0, 1)\<close> for one patient\<close>
  "patient_batch w root_path patient =
     bind_result (patient_arrays w root_path patient) (\<lambda>(PET, CT, mask).
     bind_result (stack3 PET CT mask) (\<lambda>stacked. Inr (moveaxis01 stacked)))"

fun generate_loop ::
  "'g world \<Rightarrow> string \<Rightarrow> batch option \<Rightarrow> string list list \<Rightarrow> error + batch option" where
  "generate_loop w root_path data [] = Inr data"
| "generate_loop w root_path data (patient # patient_table) =
     bind_result (patient_batch w root_path patient) (\<lambda>new.
     bind_result (case data of None \<Rightarrow> Inr new | Some d \<Rightarrow> concatenate0 d new) (\<lambda>data'.
       generate_loop w root_path (Some data') patient_table))"

definition generate_data :: "'g world \<Rightarrow> string \<Rightarrow> string list list \<Rightarrow> error + batch option" where
  "generate_data w root_path patient_table = generate_loop w root_path None patient_table"

definition shape4 :: "'a list list list list \<Rightarrow> nat list" where
  \<comment> \<open>\<^verbatim>\<open>data.shape\<close> of a four-dimensional array\<close>
  "shape4 data =
     (case data of [] \<Rightarrow> [0, 0, 0, 0]
      | s # _ \<Rightarrow> (case shape3 s of (a, b, c) \<Rightarrow> [length data, a, b, c]))"

section \<open>The specification's elapsed time\<close>


section \<open>The summands of the mask\<close>


section \<open>Example inputs\<close>

definition time_of_day :: "nat \<Rightarrow> nat \<Rightarrow> nat \<Rightarrow> nat \<Rightarrow> datetime" where
  "time_of_day h m s us = \<lparr>hour = h, minute = m, second = s, microsecond = us\<rparr>"

definition example_header ::
  "error + real \<Rightarrow> datetime \<Rightarrow> datetime \<Rightarrow> error + real \<Rightarrow> error + real \<Rightarrow> header" where
  "example_header w scan_time injection_time hl dose =
     \<lparr>PatientWeight = w, AcquisitionTime = Inr scan_time,
      RadiopharmaceuticalInformationSequence =
        Inr [\<lparr>RadiopharmaceuticalStartTime = Inr injection_time, RadionuclideHalfLife = hl,
              RadionuclideTotalDose = dose\<rparr>],
      to_json_dict = Inr (\<lambda>tag. None)\<rparr>"


definition full_header :: header where
  \<comment> \<open>every field readable, no private tag: a scan one hour after the injection\<close>
  "full_header =
     example_header (Inr 70) (time_of_day 10 0 0 0) (time_of_day 9 0 0 0) (Inr 6588)
       (Inr 100000000)"

definition tagged_header :: "json_value \<Rightarrow> header" where
  "tagged_header v =
     \<lparr>PatientWeight = Inr 70, AcquisitionTime = Inl AttributeError,
      RadiopharmaceuticalInformationSequence = Inl AttributeError,
      to_json_dict =
        Inr (\<lambda>tag. if tag = ''70531000''
                    then Some \<lparr>vr = ''DS'', Value = Some [v]\<rparr> else None)\<rparr>"

definition plane :: "'a \<Rightarrow> 'a list list" where
  "plane v = [[v, v, v, v], [v, v, v, v], [v, v, v, v], [v, v, v, v]]"

definition example_pet :: "unit image" where
  "example_pet =
     \<lparr>voxels =
        [plane (Finite 0), plane (Finite 1), plane (Finite 2), plane (Finite 1),
         plane (Finite 0), plane (Finite 1), plane (Finite 2), plane (Finite 1),
         plane (Finite 0), plane (Finite 2)],
      geometry = ()\<rparr>"

definition example_ct :: "unit image" where
  "example_ct =
     \<lparr>voxels = [[[Finite 1, Finite 2], [Finite 3, Finite 4]]], geometry = ()\<rparr>"

definition example_world :: "unit world" where
  "example_world =
     \<lparr>read_image = (\<lambda>path series_id.
        if path = ''/data/pet'' then Inr example_pet
        else if path = ''/data/ct'' then Inr example_ct
        else if path = ''/data/act'' then Inr example_ct
        else Inl OSError),
      listdir = (\<lambda>path.
        if path = ''/data/pet'' \<or> path = ''/data/ct'' \<or> path = ''/data/act''
        then Inr [''1.dcm''] else Inl OSError),
      Path_as_posix = (\<lambda>path name. path @ ''/'' @ name),
      dcmread = (\<lambda>path.
        if path = ''/data/pet/1.dcm'' then Inr (tagged_header (JNumber (Finite 2)))
        else if path = ''/data/ct/1.dcm'' then Inr (tagged_header (JString ''-3''))
        else if path = ''/data/act/1.dcm'' then Inr full_header
        else Inl OSError),
      float_str = (\<lambda>s. if s = ''-3'' then Inr (Finite (- 3)) else Inl ValueError),
      Resample = (\<lambda>moving reference.
        Inr (reference\<lparr>voxels :=
               map3 (\<lambda>v. case (v, ravel (voxels moving)) of
                            (Finite x, Finite m # _) \<Rightarrow> Finite (x * x + m)
                          | _ \<Rightarrow> v)
                 (voxels reference)\<rparr>)),
      imread = (\<lambda>path.
        if path = ''/data/left.tif'' then
          Inr [plane 0, plane 0, plane 0, plane 0, plane 0, plane 0, plane 0, plane 0,
               plane 1, plane 1]
        else if path = ''/data/nasal.tif'' then
          Inr [plane 0, plane 0, plane 0, plane 0, plane 1, plane 0, plane 0, plane 0,
               plane 0, plane 0]
        else if path = ''/data/right.tif'' then
          Inr [plane 255, plane 0, plane 0, plane 0, plane 0, plane 0, plane 0, plane 0,
               plane 0, plane 1]
        else Inl OSError)\<rparr>"

definition example_patient :: "string list" where
  "example_patient = [''ct'', ''pet'', ''left'', ''nasal'', ''right'']"

definition example_normalized :: "np_float volume" where
  "example_normalized =
     [plane (Finite 0), plane (Finite (1 / 2)), plane (Finite 1), plane (Finite (1 / 2)),
      plane (Finite 0), plane (Finite (1 / 2)), plane (Finite 1), plane (Finite (1 / 2)),
      plane (Finite 0), plane (Finite 1)]"

definition example_normalized_ct :: "np_float volume" where
  "example_normalized_ct =
     [plane (Finite 0), plane (Finite (1 / 4)), plane (Finite 1), plane (Finite (1 / 4)),
      plane (Finite 0), plane (Finite (1 / 4)), plane (Finite 1), plane (Finite (1 / 4)),
      plane (Finite 0), plane (Finite 1)]"

definition example_mask :: "int volume" where
  "example_mask =
     [plane 1, plane 1, plane 0, plane 0, plane 0, plane 1, plane 0, plane 0, plane 0,
      plane 1]"

definition example_batch :: batch where
  "example_batch =
     moveaxis01 [example_normalized, example_normalized_ct,
                 map3 (\<lambda>n. Finite (real_of_int n)) example_mask]"


section \<open>Results and errors\<close>

lemma bind_result_simps [simp]:
  "bind_result (Inl e) f = Inl e"
  "bind_result (Inr x) f = f x"
  by (simp_all add: bind_result_def)

lemma bind_result_Inr_iff:
  "bind_result m f = Inr y \<longleftrightarrow> (\<exists>x. m = Inr x \<and> f x = Inr y)"
  by (cases m) simp_all

section \<open>Rounding to a floating-point format\<close>

lemma round_half_even_of_int [simp]: "round_half_even (of_int m) = m"
  by (simp add: round_half_even_def)

lemma round_half_even_near:
  "of_int (round_half_even q) \<le> q + 1 / 2" "q - 1 / 2 \<le> of_int (round_half_even q)"
  unfolding round_half_even_def Let_def by (auto; linarith)+

lemma round_half_even_mono:
  assumes "q1 \<le> q2"
  shows "round_half_even q1 \<le> round_half_even q2"
proof (rule ccontr)
  assume "\<not> ?thesis"
  then have gt: "round_half_even q2 + 1 \<le> round_half_even q1" by simp
  then have "(of_int (round_half_even q2) :: real) + 1 \<le> of_int (round_half_even q1)"
    by (metis of_int_1 of_int_add of_int_le_iff)
  with round_half_even_near(1) [of q1] round_half_even_near(2) [of q2] assms
  have eq: "q1 = q2" and r1: "of_int (round_half_even q1) = q1 + 1 / 2"
    by linarith+
  from eq gt show False by simp
qed

lemma round_half_even_minus: "round_half_even (- q) = - round_half_even q"
proof (cases "q \<in> \<int>")
  case True
  then obtain m where "q = of_int m" by (auto elim: Ints_cases)
  then show ?thesis by (simp flip: of_int_minus)
next
  case False
  then have ne: "q \<noteq> of_int \<lfloor>q\<rfloor>"
    by (metis Ints_of_int)
  then have fl: "\<lfloor>- q\<rfloor> = - \<lfloor>q\<rfloor> - 1"
    by (simp add: floor_minus ceiling_altdef)
  have fr: "0 < q - of_int \<lfloor>q\<rfloor>" "q - of_int \<lfloor>q\<rfloor> < 1"
    using ne by linarith+
  show ?thesis
    unfolding round_half_even_def Let_def fl
    using fr by (auto; (linarith | presburger)?)
qed

lemma exponent_bounds:
  assumes "x \<noteq> 0"
  shows "2 powi \<lfloor>log 2 \<bar>x\<bar>\<rfloor> \<le> \<bar>x\<bar>" and "\<bar>x\<bar> < 2 powi (\<lfloor>log 2 \<bar>x\<bar>\<rfloor> + 1)"
proof -
  have pos: "0 < \<bar>x\<bar>" using assms by simp
  have "2 powr real_of_int \<lfloor>log 2 \<bar>x\<bar>\<rfloor> \<le> \<bar>x\<bar>
      \<and> \<bar>x\<bar> < 2 powr real_of_int (\<lfloor>log 2 \<bar>x\<bar>\<rfloor> + 1)"
    using floor_log_eq_powr_iff [OF pos, of 2 "\<lfloor>log 2 \<bar>x\<bar>\<rfloor>"] by simp
  then show "2 powi \<lfloor>log 2 \<bar>x\<bar>\<rfloor> \<le> \<bar>x\<bar>" and "\<bar>x\<bar> < 2 powi (\<lfloor>log 2 \<bar>x\<bar>\<rfloor> + 1)"
    by (simp_all only: powr_real_of_int' [of 2, simplified])
qed


lemma float_ulp_pos [simp]: "0 < float_ulp fmt x"
  by (simp add: float_ulp_def)

lemma float_ulp_nonzero [simp]: "float_ulp fmt x \<noteq> 0"
  by (simp add: float_ulp_def)

lemma float_ulp_minus [simp]: "float_ulp fmt (- x) = float_ulp fmt x"
  by (simp add: float_ulp_def)

lemma float_round_minus: "float_round fmt (- x) = - float_round fmt x"
  by (simp add: float_round_def round_half_even_minus)


lemma powi_int_scale:
  assumes "0 \<le> j"
  shows "\<exists>n::int. (2::real) powi j = of_int n \<and> n = 2 ^ nat j"
  using assms by (simp add: power_int_def)

lemma float_round_fixed:
  assumes p: "1 \<le> precision fmt"
    and m: "\<bar>m\<bar> \<le> 2 ^ precision fmt"
    and k: "emin fmt - (int (precision fmt) - 1) \<le> k"
  shows "float_round fmt (of_int m * 2 powi k) = of_int m * 2 powi k"
proof (cases "m = 0")
  case True
  then show ?thesis by (simp add: float_round_def)
next
  case False
  define x :: real where "x = of_int m * 2 powi k"
  define e where "e = \<lfloor>log 2 \<bar>x\<bar>\<rfloor>"
  define E where "E = max e (emin fmt)"
  define P where "P = int (precision fmt)"
  have x0: "x \<noteq> 0" using False by (simp add: x_def)
  have u: "float_ulp fmt x = 2 powi (E - (P - 1))"
    by (simp add: float_ulp_def E_def e_def P_def)
  have absx: "\<bar>x\<bar> = of_int \<bar>m\<bar> * 2 powi k"
    by (simp add: x_def abs_mult)
  have mle: "(of_int \<bar>m\<bar> :: real) \<le> 2 powi P"
  proof -
    have "(of_int \<bar>m\<bar> :: real) \<le> of_int (2 ^ precision fmt)"
      using m by (simp only: of_int_le_iff)
    then show ?thesis by (simp add: P_def)
  qed
  have ub: "\<bar>x\<bar> \<le> 2 powi (P + k)"
    using mle by (simp add: absx power_int_add mult_right_mono)
  have lb: "2 powi e \<le> \<bar>x\<bar>"
    using exponent_bounds(1) [OF x0] by (simp add: e_def)
  have e_le: "e \<le> P + k"
  proof (rule ccontr)
    assume "\<not> e \<le> P + k"
    then have "P + k + 1 \<le> e" by simp
    then have "(2::real) powi (P + k + 1) \<le> 2 powi e"
      by (intro power_int_increasing) simp_all
    moreover have "(2::real) powi (P + k) < 2 powi (P + k + 1)"
      by (intro power_int_strict_increasing) simp_all
    ultimately show False using ub lb by linarith
  qed
  have xu: "x / float_ulp fmt x = of_int m * 2 powi (k - (E - (P - 1)))"
  proof -
    have "x / float_ulp fmt x = of_int m * (2 powi k / 2 powi (E - (P - 1)))"
      unfolding u by (simp add: x_def)
    then show ?thesis by (simp only: power_int_diff [of "2::real", simplified])
  qed
  have "\<exists>n::int. x / float_ulp fmt x = of_int n"
  proof (cases "0 \<le> k - (E - (P - 1))")
    case True
    from powi_int_scale [OF True] obtain n :: int where n: "(2::real) powi (k - (E - (P - 1))) = of_int n"
      by blast
    have "x / float_ulp fmt x = of_int (m * n)" by (simp add: xu n)
    then show ?thesis by blast
  next
    case neg: False
    then have "k + P \<le> E" by simp
    moreover have "emin fmt < k + P" using k p by (simp add: P_def)
    ultimately have Ee: "E = e" and "k + P \<le> e" by (simp_all add: E_def max_def split: if_splits)
    with e_le have e: "e = P + k" by simp
    have "2 powi (P + k) \<le> \<bar>x\<bar>" using lb by (simp add: e)
    with ub have "\<bar>x\<bar> = 2 powi (P + k)" by simp
    then have "of_int \<bar>m\<bar> * 2 powi k = (2::real) powi P * 2 powi k"
      by (simp add: absx power_int_add)
    then have am: "(of_int \<bar>m\<bar> :: real) = 2 powi P" by simp
    have "k - (E - (P - 1)) = - 1" by (simp add: Ee e)
    with xu have q: "x / float_ulp fmt x = of_int m / 2" by (simp add: power_int_minus)
    have "(2::real) powi P = 2 * 2 ^ (precision fmt - 1)"
      using p by (simp add: P_def flip: power_Suc)
    with am have "(of_int \<bar>m\<bar> :: real) = of_int (2 * 2 ^ (precision fmt - 1))" by simp
    then have "\<bar>m\<bar> = 2 * 2 ^ (precision fmt - 1)" by (simp only: of_int_eq_iff)
    then have "even m" by (metis dvd_abs_iff dvd_triv_left)
    then obtain h where "m = 2 * h" by (auto elim: evenE)
    then show ?thesis by (simp add: q)
  qed
  then obtain n :: int where n: "x / float_ulp fmt x = of_int n" by blast
  have "float_round fmt x = of_int n * float_ulp fmt x"
    using x0 by (simp add: float_round_def n)
  also have "\<dots> = x / float_ulp fmt x * float_ulp fmt x" by (simp only: n)
  also have "\<dots> = x"
    using float_ulp_pos [of fmt x] by simp
  finally show ?thesis by (simp add: x_def)
qed

lemma pow2_le_iff: "(2::real) powi a \<le> 2 powi b \<longleftrightarrow> a \<le> b"
proof
  assume le: "(2::real) powi a \<le> 2 powi b"
  show "a \<le> b"
  proof (rule ccontr)
    assume "\<not> a \<le> b"
    then have "(2::real) powi b < 2 powi a"
      by (intro power_int_strict_increasing) simp_all
    with le show False by simp
  qed
next
  assume "a \<le> b"
  then show "(2::real) powi a \<le> 2 powi b"
    by (intro power_int_increasing) simp_all
qed

lemma pow2_less_iff: "(2::real) powi a < 2 powi b \<longleftrightarrow> a < b"
  using pow2_le_iff [of b a] by (simp add: not_le [symmetric])

lemma div_ulp_mono: "x \<le> y \<Longrightarrow> x / float_ulp fmt z \<le> y / float_ulp fmt z"
  using float_ulp_pos [of fmt z] by (simp only: divide_right_mono less_imp_le)

lemma round_half_even_le_int: "q \<le> of_int n \<Longrightarrow> round_half_even q \<le> n"
  using round_half_even_mono [of q "of_int n"] by (simp only: round_half_even_of_int)

lemma round_half_even_ge_int: "of_int n \<le> q \<Longrightarrow> n \<le> round_half_even q"
  using round_half_even_mono [of "of_int n" q] by (simp only: round_half_even_of_int)

lemma float_ulp_nonneg: "0 \<le> float_ulp fmt x"
  using float_ulp_pos [of fmt x] by (rule less_imp_le)

lemma float_round_zero [simp]: "float_round fmt 0 = 0"
  by (simp add: float_round_def)

lemma float_round_nonneg:
  assumes "0 \<le> x"
  shows "0 \<le> float_round fmt x"
proof (cases "x = 0")
  case True
  then show ?thesis by simp
next
  case False
  have "0 \<le> x / float_ulp fmt x"
    using div_ulp_mono [OF assms, of fmt x] by simp
  then have "0 \<le> round_half_even (x / float_ulp fmt x)"
    using round_half_even_ge_int [of 0] by simp
  then have "0 \<le> of_int (round_half_even (x / float_ulp fmt x)) * float_ulp fmt x"
    by (intro mult_nonneg_nonneg float_ulp_nonneg) simp
  then show ?thesis using False by (simp only: float_round_def if_False)
qed

lemma float_round_nonpos:
  assumes "x \<le> 0"
  shows "float_round fmt x \<le> 0"
  using float_round_nonneg [of "- x" fmt] assms by (simp add: float_round_minus)

lemma pow2_ratio_int:
  assumes "i \<le> j"
  shows "(2::real) powi j / 2 powi i = of_int (2 ^ nat (j - i))"
proof -
  have "(2::real) powi j / 2 powi i = 2 powi (j - i)"
    by (simp only: power_int_diff [of "2::real", simplified])
  also have "\<dots> = of_int (2 ^ nat (j - i))"
    using assms by (simp add: power_int_def)
  finally show ?thesis .
qed

lemma float_round_le_pow:
  assumes p: "1 \<le> precision fmt" and x: "0 < x" and le: "x \<le> 2 powi j" and j: "emin fmt \<le> j"
  shows "float_round fmt x \<le> 2 powi j"
proof -
  define e where "e = \<lfloor>log 2 \<bar>x\<bar>\<rfloor>"
  define E where "E = max e (emin fmt)"
  define i where "i = E - (int (precision fmt) - 1)"
  have u: "float_ulp fmt x = 2 powi i"
    by (simp add: float_ulp_def i_def E_def e_def)
  have x0: "x \<noteq> 0" using x by simp
  have "2 powi e \<le> x" using exponent_bounds(1) [OF x0] x by (simp add: e_def)
  with le have "(2::real) powi e \<le> 2 powi j" by linarith
  then have "e \<le> j" by (simp only: pow2_le_iff)
  with j have "E \<le> j" by (simp add: E_def)
  with p have ij: "i \<le> j" by (simp add: i_def)
  have "x / 2 powi i \<le> 2 powi j / 2 powi i"
    using le by (simp add: divide_right_mono)
  also have "\<dots> = of_int (2 ^ nat (j - i))" by (rule pow2_ratio_int [OF ij])
  finally have "round_half_even (x / 2 powi i) \<le> 2 ^ nat (j - i)"
    by (rule round_half_even_le_int)
  then have "(of_int (round_half_even (x / 2 powi i)) :: real) \<le> of_int (2 ^ nat (j - i))"
    by (simp only: of_int_le_iff)
  then have "of_int (round_half_even (x / 2 powi i)) * 2 powi i \<le> of_int (2 ^ nat (j - i)) * (2::real) powi i"
    by (intro mult_right_mono) simp_all
  also have "\<dots> = 2 powi j / 2 powi i * 2 powi i"
    by (simp only: pow2_ratio_int [OF ij])
  also have "\<dots> = 2 powi j" by simp
  finally show ?thesis using x0 by (simp add: float_round_def u)
qed

lemma float_round_ge_pow:
  assumes p: "1 \<le> precision fmt" and ge: "2 powi j \<le> x" and j: "emin fmt \<le> j"
  shows "2 powi j \<le> float_round fmt x"
proof -
  define e where "e = \<lfloor>log 2 \<bar>x\<bar>\<rfloor>"
  define i where "i = e - (int (precision fmt) - 1)"
  have "(0::real) < 2 powi j" by simp
  with ge have x: "0 < x" by linarith
  then have x0: "x \<noteq> 0" by simp
  have lb: "2 powi e \<le> x" and ub: "x < 2 powi (e + 1)"
    using exponent_bounds [OF x0] x by (simp_all add: e_def)
  from ge ub have "(2::real) powi j < 2 powi (e + 1)" by linarith
  then have je: "j \<le> e" by (simp add: pow2_less_iff)
  with j have "max e (emin fmt) = e" by simp
  then have u: "float_ulp fmt x = 2 powi i"
    by (simp add: float_ulp_def i_def e_def)
  have ie: "i \<le> e" using p by (simp add: i_def)
  have "(of_int (2 ^ nat (e - i)) :: real) = 2 powi e / 2 powi i"
    by (simp only: pow2_ratio_int [OF ie])
  also have "\<dots> \<le> x / 2 powi i"
    using lb by (simp add: divide_right_mono)
  finally have "2 ^ nat (e - i) \<le> round_half_even (x / 2 powi i)"
    by (rule round_half_even_ge_int)
  then have "(of_int (2 ^ nat (e - i)) :: real) \<le> of_int (round_half_even (x / 2 powi i))"
    by (simp only: of_int_le_iff)
  then have A: "of_int (2 ^ nat (e - i)) * (2::real) powi i \<le> of_int (round_half_even (x / 2 powi i)) * 2 powi i"
    by (intro mult_right_mono) simp_all
  have B: "of_int (2 ^ nat (e - i)) * (2::real) powi i = 2 powi e"
  proof -
    have "of_int (2 ^ nat (e - i)) * (2::real) powi i = 2 powi e / 2 powi i * 2 powi i"
      by (simp only: pow2_ratio_int [OF ie])
    then show ?thesis by simp
  qed
  have C: "(2::real) powi j \<le> 2 powi e" using je by (simp only: pow2_le_iff)
  have fr: "float_round fmt x = of_int (round_half_even (x / 2 powi i)) * 2 powi i"
    using x0 by (simp only: float_round_def u if_False)
  show ?thesis unfolding fr using A B C by linarith
qed

lemma float_round_mono_pos:
  assumes p: "1 \<le> precision fmt" and x: "0 < x" and xy: "x \<le> y"
  shows "float_round fmt x \<le> float_round fmt y"
proof -
  define ex where "ex = \<lfloor>log 2 \<bar>x\<bar>\<rfloor>"
  define ey where "ey = \<lfloor>log 2 \<bar>y\<bar>\<rfloor>"
  have y: "0 < y" using x xy by simp
  have x0: "x \<noteq> 0" and y0: "y \<noteq> 0" using x y by simp_all
  have "log 2 x \<le> log 2 y" using x xy by simp
  then have exy: "ex \<le> ey" using x y by (simp add: ex_def ey_def floor_mono)
  show ?thesis
  proof (cases "max ex (emin fmt) = max ey (emin fmt)")
    case True
    then have u: "float_ulp fmt x = float_ulp fmt y"
      by (simp add: float_ulp_def ex_def ey_def)
    have "x / float_ulp fmt y \<le> y / float_ulp fmt y"
      using xy by (rule div_ulp_mono)
    from round_half_even_mono [OF this]
    have "(of_int (round_half_even (x / float_ulp fmt y)) :: real)
        \<le> of_int (round_half_even (y / float_ulp fmt y))"
      by (simp only: of_int_le_iff)
    then have "of_int (round_half_even (x / float_ulp fmt y)) * float_ulp fmt y
        \<le> of_int (round_half_even (y / float_ulp fmt y)) * float_ulp fmt y"
      by (rule mult_right_mono [OF _ float_ulp_nonneg])
    then show ?thesis using x0 y0 by (simp add: float_round_def u)
  next
    case False
    with exy have lt: "max ex (emin fmt) < ey" and ey: "emin fmt \<le> ey"
      by (simp_all add: max_def split: if_splits)
    have "x < 2 powi (ex + 1)" using exponent_bounds(2) [OF x0] x by (simp add: ex_def)
    moreover have "(2::real) powi (ex + 1) \<le> 2 powi ey"
      using lt by (intro power_int_increasing) simp_all
    ultimately have "x \<le> 2 powi ey" by linarith
    from float_round_le_pow [OF p x this ey] have a: "float_round fmt x \<le> 2 powi ey" .
    have "2 powi ey \<le> y" using exponent_bounds(1) [OF y0] y by (simp add: ey_def)
    from float_round_ge_pow [OF p this ey] a show ?thesis by linarith
  qed
qed

lemma float_round_mono:
  assumes p: "1 \<le> precision fmt" and xy: "x \<le> y"
  shows "float_round fmt x \<le> float_round fmt y"
proof -
  consider "0 < x" | "x \<le> 0" "0 \<le> y" | "y < 0" by linarith
  then show ?thesis
  proof cases
    case 1
    then show ?thesis by (rule float_round_mono_pos [OF p _ xy])
  next
    case 2
    with float_round_nonpos [of x fmt] float_round_nonneg [of y fmt] show ?thesis by linarith
  next
    case 3
    then have "0 < - y" "- y \<le> - x" using xy by simp_all
    from float_round_mono_pos [OF p this] show ?thesis by (simp add: float_round_minus)
  qed
qed

lemma float_round_idem:
  assumes p: "1 \<le> precision fmt"
  shows "float_round fmt (float_round fmt x) = float_round fmt x"
proof (cases "x = 0")
  case True
  then show ?thesis by simp
next
  case x0: False
  define e where "e = \<lfloor>log 2 \<bar>x\<bar>\<rfloor>"
  define E where "E = max e (emin fmt)"
  define i where "i = E - (int (precision fmt) - 1)"
  define m where "m = round_half_even (x / 2 powi i)"
  have u: "float_ulp fmt x = 2 powi i"
    by (simp add: float_ulp_def i_def E_def e_def)
  have fr: "float_round fmt x = of_int m * 2 powi i"
    using x0 by (simp add: float_round_def u m_def)
  have "\<bar>x\<bar> < 2 powi (e + 1)" using exponent_bounds(2) [OF x0] by (simp add: e_def)
  moreover have "(2::real) powi (e + 1) \<le> 2 powi (E + 1)"
    by (intro power_int_increasing) (simp_all add: E_def)
  ultimately have ax: "\<bar>x\<bar> \<le> 2 powi (E + 1)" by linarith
  have iE: "i \<le> E + 1" using p by (simp add: i_def)
  have "nat (E + 1 - i) = precision fmt" using p by (simp add: i_def)
  with pow2_ratio_int [OF iE] have ratio: "(2::real) powi (E + 1) / 2 powi i = of_int (2 ^ precision fmt)"
    by simp
  have "\<bar>x / 2 powi i\<bar> \<le> 2 powi (E + 1) / 2 powi i"
    using ax by (simp add: divide_right_mono)
  then have "\<bar>x / 2 powi i\<bar> \<le> of_int (2 ^ precision fmt)"
    unfolding ratio .
  then have b: "x / 2 powi i \<le> of_int (2 ^ precision fmt)" "of_int (- (2 ^ precision fmt)) \<le> x / 2 powi i"
    by (simp_all only: of_int_minus abs_le_iff) linarith+
  have "m \<le> 2 ^ precision fmt"
    unfolding m_def using b(1) by (rule round_half_even_le_int)
  moreover have "- (2 ^ precision fmt) \<le> m"
    unfolding m_def using b(2) by (rule round_half_even_ge_int)
  ultimately have "\<bar>m\<bar> \<le> 2 ^ precision fmt" by simp
  moreover have "emin fmt - (int (precision fmt) - 1) \<le> i" by (simp add: i_def E_def)
  ultimately show ?thesis unfolding fr by (rule float_round_fixed [OF p])
qed

lemma float_round_one:
  assumes "1 \<le> precision fmt" and "emin fmt \<le> 0"
  shows "float_round fmt 1 = 1"
proof -
  have "float_round fmt (of_int 1 * 2 powi 0) = of_int 1 * 2 powi 0"
  proof (rule float_round_fixed [OF assms(1)])
    show "\<bar>1::int\<bar> \<le> 2 ^ precision fmt" by (simp add: self_le_power)
    show "emin fmt - (int (precision fmt) - 1) \<le> 0" using assms by simp
  qed
  then show ?thesis by simp
qed

lemma float_round_of_int:
  assumes "1 \<le> precision fmt" and "emin fmt \<le> 0" and "\<bar>n\<bar> \<le> 2 ^ precision fmt"
  shows "float_round fmt (of_int n) = of_int n"
  using float_round_fixed [OF assms(1,3), of 0] assms(1,2) by simp

section \<open>Normalisation\<close>

lemma valid_float32 [simp]: "valid_format float32"
  by (simp add: valid_format_def float32_def)

lemma valid_float64 [simp]: "valid_format float64"
  by (simp add: valid_format_def float64_def)

lemma to_np_float_Finite:
  assumes "\<bar>float_round fmt x\<bar> < 2 powi (emax fmt + 1)"
  shows "to_np_float fmt x = Finite (float_round fmt x)"
  using assms by (auto simp add: to_np_float_def Let_def abs_less_iff)

lemma pow_emax_gt_one:
  assumes "valid_format fmt"
  shows "(1::real) < 2 powi (emax fmt + 1)"
proof -
  have "(2::real) powi 0 < 2 powi (emax fmt + 1)"
    using assms by (simp only: pow2_less_iff valid_format_def) simp
  then show ?thesis by simp
qed

lemma float_round_unit_interval:
  assumes fmt: "valid_format fmt" and "0 \<le> q" and "q \<le> 1"
  shows "0 \<le> float_round fmt q" and "float_round fmt q \<le> 1"
proof -
  have p: "1 \<le> precision fmt" and e: "emin fmt \<le> 0" using fmt by (simp_all add: valid_format_def)
  show "0 \<le> float_round fmt q" using assms(2) by (rule float_round_nonneg)
  from float_round_mono [OF p assms(3)] float_round_one [OF p e]
  show "float_round fmt q \<le> 1" by simp
qed

lemma fold_np_minimum_Finite:
  "fold np_minimum (map Finite xs) (Finite a) = Finite (fold min xs a)"
  by (induction xs arbitrary: a) (simp_all add: min.commute)

lemma fold_np_maximum_Finite:
  "fold np_maximum (map Finite xs) (Finite a) = Finite (fold max xs a)"
  by (induction xs arbitrary: a) (simp_all add: max.commute)

lemma amin_Finite:
  assumes "xs \<noteq> []"
  shows "amin (map Finite xs) = Inr (Finite (Min (set xs)))"
proof -
  from assms obtain a as where xs: "xs = a # as" by (cases xs) auto
  show ?thesis
    using Min.set_eq_fold [of a as] by (simp add: xs amin_def fold_np_minimum_Finite)
qed

lemma amax_Finite:
  assumes "xs \<noteq> []"
  shows "amax (map Finite xs) = Inr (Finite (Max (set xs)))"
proof -
  from assms obtain a as where xs: "xs = a # as" by (cases xs) auto
  show ?thesis
    using Max.set_eq_fold [of a as] by (simp add: xs amax_def fold_np_maximum_Finite)
qed

lemma ravel_map3: "ravel (map3 f x) = map f (ravel x)"
  by (simp add: ravel_def map3_def map_concat)

lemma map3_map3: "map3 f (map3 g x) = map3 (\<lambda>v. f (g v)) x"
  by (simp add: map3_def comp_def)

lemma map3_cong_ravel:
  assumes "\<And>v. v \<in> set (ravel x) \<Longrightarrow> f v = g v"
  shows "map3 f x = map3 g x"
  unfolding map3_def
proof (intro map_cong refl)
  fix p r v
  assume "p \<in> set x" "r \<in> set p" "v \<in> set r"
  then have "v \<in> set (ravel x)" by (auto simp add: ravel_def)
  then show "f v = g v" by (rule assms)
qed

lemma map3_ident_ravel:
  assumes "\<And>v. v \<in> set (ravel x) \<Longrightarrow> f v = v"
  shows "map3 f x = x"
proof -
  have "map3 f x = map3 (\<lambda>v. v) x" using assms by (rule map3_cong_ravel)
  also have "\<dots> = x" by (simp add: map3_def map_idI)
  finally show ?thesis .
qed

lemma representable_multiple:
  assumes p: "1 \<le> precision fmt" and fx: "float_round fmt x = x"
  shows "\<exists>n::int. x = of_int n * 2 powi (emin fmt - (int (precision fmt) - 1))"
proof (cases "x = 0")
  case True
  then have "x = of_int 0 * 2 powi (emin fmt - (int (precision fmt) - 1))" by simp
  then show ?thesis by blast
next
  case False
  define E where "E = max \<lfloor>log 2 \<bar>x\<bar>\<rfloor> (emin fmt)"
  define t where "t = emin fmt - (int (precision fmt) - 1)"
  define m where "m = round_half_even (x / float_ulp fmt x)"
  have u: "float_ulp fmt x = 2 powi (E - (int (precision fmt) - 1))"
    by (simp add: float_ulp_def E_def)
  have le: "t \<le> E - (int (precision fmt) - 1)" by (simp add: t_def E_def)
  have "(2::real) powi (E - (int (precision fmt) - 1)) / 2 powi t
      = of_int (2 ^ nat (E - (int (precision fmt) - 1) - t))"
    by (rule pow2_ratio_int [OF le])
  then have "(2::real) powi (E - (int (precision fmt) - 1))
      = of_int (2 ^ nat (E - (int (precision fmt) - 1) - t)) * 2 powi t"
    by (simp add: field_simps)
  moreover have "x = of_int m * float_ulp fmt x"
    using fx False by (simp add: float_round_def m_def)
  ultimately have "x = of_int (m * 2 ^ nat (E - (int (precision fmt) - 1) - t)) * 2 powi t"
    by (simp add: u)
  then show ?thesis unfolding t_def by blast
qed

lemma float_round_diff_nonzero:
  assumes p: "1 \<le> precision fmt" and fx: "float_round fmt x = x" and fy: "float_round fmt y = y"
    and lt: "y < x"
  shows "0 < float_round fmt (x - y)"
proof -
  define t where "t = emin fmt - (int (precision fmt) - 1)"
  from representable_multiple [OF p fx] obtain n :: int where n: "x = of_int n * 2 powi t"
    unfolding t_def by blast
  from representable_multiple [OF p fy] obtain m :: int where m: "y = of_int m * 2 powi t"
    unfolding t_def by blast
  have "of_int m * (2::real) powi t < of_int n * 2 powi t" using lt n m by simp
  then have "m < n" by (simp add: mult_less_cancel_right)
  then have "(1::real) \<le> of_int (n - m)" by simp
  then have "1 * (2::real) powi t \<le> of_int (n - m) * 2 powi t"
    by (intro mult_right_mono) simp_all
  then have ge: "2 powi t \<le> x - y" by (simp add: n m algebra_simps)
  have "float_round fmt (of_int 1 * 2 powi t) = of_int 1 * 2 powi t"
    by (rule float_round_fixed [OF p]) (simp_all add: t_def self_le_power)
  then have fixed: "float_round fmt (2 powi t) = 2 powi t" by simp
  from float_round_mono [OF p ge] fixed have "2 powi t \<le> float_round fmt (x - y)" by simp
  moreover have "(0::real) < 2 powi t" by simp
  ultimately show ?thesis by linarith
qed

lemma norm_np_Finite:
  fixes xr :: "real volume"
  assumes fmt: "valid_format fmt" and ne: "ravel xr \<noteq> []"
    and D: "D = float_round fmt (Max (set (ravel xr)) - Min (set (ravel xr)))"
    and Dpos: "0 < D" and Dfin: "D < 2 powi (emax fmt + 1)"
  shows "norm_np fmt (map3 Finite xr)
         = Inr (map3 Finite
             (map3 (\<lambda>v. float_round fmt (float_round fmt (v - Min (set (ravel xr))) / D)) xr))"
proof -
  define lo where "lo = Min (set (ravel xr))"
  define hi where "hi = Max (set (ravel xr))"
  have p: "1 \<le> precision fmt" using fmt by (simp add: valid_format_def)
  have sub_hi: "np_subtract fmt (Finite hi) (Finite lo) = Finite D"
    using Dpos Dfin by (simp add: np_subtract_def to_np_float_Finite D lo_def hi_def)
  have vox: "np_divide fmt (np_subtract fmt (Finite v) (Finite lo)) (Finite D)
      = Finite (float_round fmt (float_round fmt (v - lo) / D))"
    if v: "v \<in> set (ravel xr)" for v
  proof -
    have "lo \<le> v" "v \<le> hi" using v by (simp_all add: lo_def hi_def)
    then have "0 \<le> v - lo" "v - lo \<le> hi - lo" by simp_all
    with float_round_nonneg [of "v - lo" fmt] float_round_mono [OF p, of "v - lo" "hi - lo"]
    have s: "0 \<le> float_round fmt (v - lo)" "float_round fmt (v - lo) \<le> D"
      by (simp_all add: D lo_def hi_def)
    then have "\<bar>float_round fmt (v - lo)\<bar> < 2 powi (emax fmt + 1)"
      using Dfin by simp
    then have sub: "np_subtract fmt (Finite v) (Finite lo) = Finite (float_round fmt (v - lo))"
      by (simp add: np_subtract_def to_np_float_Finite)
    have q: "0 \<le> float_round fmt (v - lo) / D" "float_round fmt (v - lo) / D \<le> 1"
      using s Dpos by simp_all
    from float_round_unit_interval [OF fmt q] pow_emax_gt_one [OF fmt]
    have "\<bar>float_round fmt (float_round fmt (v - lo) / D)\<bar> < 2 powi (emax fmt + 1)"
      by simp
    then show ?thesis
      using Dpos by (simp add: sub to_np_float_Finite)
  qed
  have "norm_np fmt (map3 Finite xr)
      = Inr (map3 (\<lambda>v. np_divide fmt (np_subtract fmt v (Finite lo)) (Finite D)) (map3 Finite xr))"
    using ne by (simp add: norm_np_def ravel_map3 amin_Finite amax_Finite
        sub_hi [unfolded lo_def hi_def] bind_result_def lo_def hi_def)
  also have "map3 (\<lambda>v. np_divide fmt (np_subtract fmt v (Finite lo)) (Finite D)) (map3 Finite xr)
      = map3 (\<lambda>v. Finite (float_round fmt (float_round fmt (v - lo) / D))) xr"
    unfolding map3_map3 by (rule map3_cong_ravel) (rule vox)
  also have "\<dots> = map3 Finite (map3 (\<lambda>v. float_round fmt (float_round fmt (v - lo) / D)) xr)"
    by (simp add: map3_map3)
  finally show ?thesis by (simp add: lo_def)
qed

text \<open>
  \<^bold>\<open>Claim C8\<close> (as the code has it). Take an array of finite numbers of a
  floating-point format that is not empty and not constant, and whose rounded range
  \<open>max - min\<close> is finite in the format. Then \<^verbatim>\<open>norm\<close> returns an array of finite
  numbers with minimum exactly 0 and maximum exactly 1, and applying \<^verbatim>\<open>norm\<close> to that
  array returns it unchanged.
\<close>

theorem norm_np_range_idempotent:
  fixes xr :: "real volume"
  assumes fmt: "valid_format fmt" and ne: "ravel xr \<noteq> []"
    and rep: "\<forall>v \<in> set (ravel xr). representable fmt v"
    and nc: "Min (set (ravel xr)) \<noteq> Max (set (ravel xr))"
    and rng: "float_round fmt (Max (set (ravel xr)) - Min (set (ravel xr))) < 2 powi (emax fmt + 1)"
  shows "\<exists>y. norm_np fmt (map3 Finite xr) = Inr (map3 Finite y)
           \<and> amin (ravel (map3 Finite y)) = Inr (Finite 0)
           \<and> amax (ravel (map3 Finite y)) = Inr (Finite 1)
           \<and> Min (set (ravel y)) = 0 \<and> Max (set (ravel y)) = 1
           \<and> (\<forall>v \<in> set (ravel y). representable fmt v)
           \<and> norm_np fmt (map3 Finite y) = Inr (map3 Finite y)"
proof -
  define lo where "lo = Min (set (ravel xr))"
  define hi where "hi = Max (set (ravel xr))"
  define D where "D = float_round fmt (hi - lo)"
  define g where "g = (\<lambda>v. float_round fmt (float_round fmt (v - lo) / D))"
  define y where "y = map3 g xr"
  have p: "1 \<le> precision fmt" and e0: "emin fmt \<le> 0"
    using fmt by (simp_all add: valid_format_def)
  have fin: "finite (set (ravel xr))" and nonempty: "set (ravel xr) \<noteq> {}"
    using ne by simp_all
  have lo_in: "lo \<in> set (ravel xr)" and hi_in: "hi \<in> set (ravel xr)"
    unfolding lo_def hi_def using Min_in [OF fin nonempty] Max_in [OF fin nonempty] by simp_all
  have "lo \<le> hi" unfolding lo_def hi_def using fin nonempty by (simp add: Min_le_iff)
  with nc have lt: "lo < hi" by (simp add: lo_def hi_def)
  have Dpos: "0 < D"
    unfolding D_def using rep lo_in hi_in lt
    by (intro float_round_diff_nonzero [OF p]) (simp_all add: representable_def)
  have Dfin: "D < 2 powi (emax fmt + 1)" using rng by (simp add: D_def lo_def hi_def)
  have n1: "norm_np fmt (map3 Finite xr) = Inr (map3 Finite y)"
    using norm_np_Finite [OF fmt ne _ Dpos Dfin] by (simp add: D_def lo_def hi_def y_def g_def)
  have ry: "ravel y = map g (ravel xr)" by (simp add: y_def ravel_map3)
  have ney: "ravel y \<noteq> []" using ne by (simp add: ry)
  have g_range: "0 \<le> g v \<and> g v \<le> 1" if "v \<in> set (ravel xr)" for v
  proof -
    have "lo \<le> v" "v \<le> hi" using that by (simp_all add: lo_def hi_def)
    then have "0 \<le> v - lo" "v - lo \<le> hi - lo" by simp_all
    with float_round_nonneg [of "v - lo" fmt] float_round_mono [OF p, of "v - lo" "hi - lo"]
    have "0 \<le> float_round fmt (v - lo)" "float_round fmt (v - lo) \<le> D"
      by (simp_all add: D_def)
    then have "0 \<le> float_round fmt (v - lo) / D" "float_round fmt (v - lo) / D \<le> 1"
      using Dpos by simp_all
    from float_round_unit_interval [OF fmt this] show ?thesis by (simp add: g_def)
  qed
  have g_lo: "g lo = 0" by (simp add: g_def)
  have g_hi: "g hi = 1"
    using Dpos float_round_one [OF p e0] by (simp add: g_def D_def)
  have min0: "Min (set (ravel y)) = 0"
  proof (rule Min_eqI)
    show "finite (set (ravel y))" by simp
    show "0 \<le> v" if "v \<in> set (ravel y)" for v using that g_range by (auto simp add: ry)
    show "0 \<in> set (ravel y)" using lo_in g_lo by (force simp add: ry)
  qed
  have max1: "Max (set (ravel y)) = 1"
  proof (rule Max_eqI)
    show "finite (set (ravel y))" by simp
    show "v \<le> 1" if "v \<in> set (ravel y)" for v using that g_range by (auto simp add: ry)
    show "1 \<in> set (ravel y)" using hi_in g_hi by (force simp add: ry)
  qed
  have rep_y: "representable fmt v" if "v \<in> set (ravel y)" for v
  proof -
    from that obtain u where u: "u \<in> set (ravel xr)" and v: "v = g u" by (auto simp add: ry)
    have "float_round fmt v = v" unfolding v g_def by (rule float_round_idem [OF p])
    moreover have "\<bar>v\<bar> < 2 powi (emax fmt + 1)"
      using g_range [OF u] pow_emax_gt_one [OF fmt] by (simp add: v)
    ultimately show ?thesis by (simp add: representable_def)
  qed
  have one: "float_round fmt 1 = 1" by (rule float_round_one [OF p e0])
  have n2: "norm_np fmt (map3 Finite y) = Inr (map3 Finite y)"
  proof -
    have "norm_np fmt (map3 Finite y)
        = Inr (map3 Finite (map3 (\<lambda>v. float_round fmt (float_round fmt (v - 0) / 1)) y))"
      using norm_np_Finite [OF fmt ney, of 1] pow_emax_gt_one [OF fmt]
      by (simp add: min0 max1 one)
    moreover have "map3 (\<lambda>v. float_round fmt (float_round fmt (v - 0) / 1)) y = y"
      using rep_y by (intro map3_ident_ravel) (simp add: representable_def)
    ultimately show ?thesis by simp
  qed
  have "amin (ravel (map3 Finite y)) = Inr (Finite 0)"
    using ney by (simp add: ravel_map3 amin_Finite min0)
  moreover have "amax (ravel (map3 Finite y)) = Inr (Finite 1)"
    using ney by (simp add: ravel_map3 amax_Finite max1)
  ultimately show ?thesis
    using n1 n2 min0 max1 rep_y by blast
qed

lemma representable_float32_small:
  assumes "\<bar>n\<bar> \<le> 1000"
  shows "representable float32 (of_int n)"
proof -
  have "\<bar>n\<bar> \<le> 2 ^ precision float32" using assms by (simp add: float32_def)
  then have "float_round float32 (of_int n) = of_int n"
    by (intro float_round_of_int) (simp_all add: float32_def)
  moreover have "\<bar>real_of_int n\<bar> \<le> 1000" using assms by linarith
  then have "\<bar>real_of_int n\<bar> < 2 powi (emax float32 + 1)" by (simp add: float32_def)
  ultimately show ?thesis by (simp add: representable_def)
qed

theorem norm_np_range_idempotent_witness:
  "valid_format float32
   \<and> representable float32 2 \<and> representable float32 3 \<and> representable float32 4
   \<and> representable float32 6
   \<and> (\<exists>y. norm_np float32 (map3 Finite [[[2, 4], [3, 6]]]) = Inr (map3 Finite y)
          \<and> Min (set (ravel y)) = 0 \<and> Max (set (ravel y)) = 1
          \<and> norm_np float32 (map3 Finite y) = Inr (map3 Finite y))"
proof -
  have r: "representable float32 2" "representable float32 3" "representable float32 4"
    "representable float32 6"
    using representable_float32_small [of 2] representable_float32_small [of 3]
      representable_float32_small [of 4] representable_float32_small [of 6]
    by simp_all
  have rng: "float_round float32 (Max (set (ravel [[[2, 4], [3, 6 :: real]]]))
      - Min (set (ravel [[[2, 4], [3, 6]]]))) < 2 powi (emax float32 + 1)"
    using r(3) by (simp add: ravel_def representable_def float32_def)
  from norm_np_range_idempotent [of float32 "[[[2, 4], [3, 6]]]", OF valid_float32 _ _ _ rng] r
  show ?thesis by (simp add: ravel_def) blast
qed

text \<open>
  The claim as worded fails when the range overflows: in \<^verbatim>\<open>float32\<close> the array
  \<open>[-3 \<cdot> 2\<^sup>1\<^sup>2\<^sup>6, 0, 3 \<cdot> 2\<^sup>1\<^sup>2\<^sup>6]\<close> is finite and not constant, its range rounds to
  \<^verbatim>\<open>inf\<close>, and \<^verbatim>\<open>norm\<close> returns \<open>[0, 0, nan]\<close>, whose maximum is \<^verbatim>\<open>nan\<close>.
\<close>

lemma float32_big:
  "float_round float32 (3 * 2 ^ 126) = 3 * 2 ^ 126"
  "float_round float32 (3 * 2 ^ 127) = 3 * 2 ^ 127"
  using float_round_fixed [of float32 3 126] float_round_fixed [of float32 3 127]
  by (simp_all add: float32_def)

theorem norm_np_overflow_counterexample:
  "representable float32 (3 * 2 ^ 126) \<and> representable float32 (- (3 * 2 ^ 126))
   \<and> representable float32 0
   \<and> norm_np float32 [[[Finite (- (3 * 2 ^ 126)), Finite 0, Finite (3 * 2 ^ 126)]]]
     = Inr [[[Finite 0, Finite 0, NaN]]]
   \<and> amax (ravel [[[Finite 0, Finite 0, NaN]]]) = Inr NaN"
proof -
  have a: "to_np_float float32 (3 * 2 ^ 126) = Finite (3 * 2 ^ 126)"
    unfolding to_np_float_def Let_def float32_big by (simp add: float32_def)
  have b: "to_np_float float32 (3 * 2 ^ 127) = PInf"
    unfolding to_np_float_def Let_def float32_big by (simp add: float32_def)
  have z: "to_np_float float32 0 = Finite 0"
    by (simp add: to_np_float_def float32_def)
  have n: "norm_np float32 [[[Finite (- (3 * 2 ^ 126)), Finite 0, Finite (3 * 2 ^ 126)]]]
     = Inr [[[Finite 0, Finite 0, NaN]]]"
    using a b z
    by (simp add: norm_np_def amin_def amax_def ravel_def map3_def np_subtract_def
        bind_result_def)
  have r: "representable float32 (3 * 2 ^ 126)"
    using float32_big(1) by (simp add: representable_def float32_def)
  then have "representable float32 (- (3 * 2 ^ 126))"
    by (simp add: representable_def float_round_minus)
  with n r show ?thesis
    by (simp add: amax_def ravel_def representable_def)
qed

section \<open>The decay block\<close>

lemma decay_average_eq:
  "decay_average = (exp (- ln 2 * 6300 / 6588), 420000000 * exp (- ln 2 * 6300 / 6588))"
  by (simp add: decay_average_def Let_def)


lemma decay_from_header_isl:
  "isl (decay_from_header d) \<longleftrightarrow>
     isl (AcquisitionTime d) \<or> isl (RadiopharmaceuticalInformationSequence d)
     \<or> RadiopharmaceuticalInformationSequence d = Inr []
     \<or> (\<exists>item rest. RadiopharmaceuticalInformationSequence d = Inr (item # rest)
          \<and> (isl (RadiopharmaceuticalStartTime item) \<or> isl (RadionuclideHalfLife item)
             \<or> isl (RadionuclideTotalDose item) \<or> RadionuclideHalfLife item = Inr 0))"
  by (auto simp add: decay_from_header_def sequence_item0_def float_truediv_def Let_def bind_result_def
      split: sum.splits list.splits)

lemma fst_decay_block_pos: "0 < fst (decay_block d)"
  by (auto simp add: decay_block_def decay_from_header_def decay_average_def Let_def bind_result_def
      split: sum.splits)



lemma example_timedelta_whole: "timedelta_seconds (time_of_day 10 0 0 0) (time_of_day 9 0 0 0) = 3600"
  by (simp add: timedelta_seconds_def microseconds_of_day_def time_of_day_def)






text \<open>
  \<^bold>\<open>Claim C6\<close> (as the code has it, over the reals). In ACT mode (any mode string other
  than \<^verbatim>\<open>"SUV"\<close>) \<^verbatim>\<open>calc_factor\<close> returns \<open>1 / a\<close> for the decay factor \<open>a\<close> of the
  decay block. The result does not change when the weight field changes in any way, nor
  when the dose field changes while staying readable (or staying unreadable).
\<close>

theorem calc_factor_ACT:
  assumes "type \<noteq> ''SUV''"
  shows "calc_factor d type = Finite (1 / fst (decay_block d))
         \<and> calc_factor (d\<lparr>PatientWeight := w\<rparr>) type = calc_factor d type
         \<and> (RadiopharmaceuticalInformationSequence d = Inr (item # rest)
              \<and> isl dose' = isl (RadionuclideTotalDose item)
            \<longrightarrow> calc_factor
                  (d\<lparr>RadiopharmaceuticalInformationSequence :=
                       Inr (item\<lparr>RadionuclideTotalDose := dose'\<rparr> # rest)\<rparr>) type
                = calc_factor d type)"
proof -
  have act: "calc_factor h type = Finite (1 / fst (decay_block h))" for h
    using assms fst_decay_block_pos [of h]
    by (simp add: calc_factor_def np_true_divide_def split_beta Let_def)
  have wt: "decay_block (d\<lparr>PatientWeight := w\<rparr>) = decay_block d"
    by (simp add: decay_block_def decay_from_header_def sequence_item0_def)
  have dose: "fst (decay_block
                (d\<lparr>RadiopharmaceuticalInformationSequence :=
                     Inr (item\<lparr>RadionuclideTotalDose := dose'\<rparr> # rest)\<rparr>))
              = fst (decay_block d)"
    if "RadiopharmaceuticalInformationSequence d = Inr (item # rest)"
      and "isl dose' = isl (RadionuclideTotalDose item)"
    using that
    by (cases dose'; cases "RadionuclideTotalDose item")
      (auto simp add: decay_block_def decay_from_header_def sequence_item0_def bind_result_def
        Let_def split: sum.splits)
  show ?thesis
    using dose by (simp add: act wt)
qed

theorem calc_factor_ACT_witness:
  "''ACT'' \<noteq> ''SUV''
   \<and> calc_factor (example_header (Inr 70) (time_of_day 10 0 0 0) (time_of_day 9 0 0 0)
         (Inr 6588) (Inr 200000000)) ''ACT''
     = calc_factor (example_header (Inr 70) (time_of_day 10 0 0 0) (time_of_day 9 0 0 0)
         (Inr 6588) (Inr 100000000)) ''ACT''
   \<and> calc_factor (example_header (Inr 70) (time_of_day 10 0 0 0) (time_of_day 9 0 0 0)
         (Inr 6588) (Inr 100000000)) ''ACT''
     = Finite (1 / fst (decay_block (example_header (Inr 70) (time_of_day 10 0 0 0)
         (time_of_day 9 0 0 0) (Inr 6588) (Inr 100000000))))"
  using calc_factor_ACT [of "''ACT''"
      "example_header (Inr 70) (time_of_day 10 0 0 0) (time_of_day 9 0 0 0)
         (Inr 6588) (Inr 100000000)"
      "Inr 70"
      "\<lparr>RadiopharmaceuticalStartTime = Inr (time_of_day 9 0 0 0),
        RadionuclideHalfLife = Inr 6588, RadionuclideTotalDose = Inr 100000000\<rparr>" "[]"
      "Inr 200000000"]
  by (simp add: example_header_def)

text \<open>
  Removing the dose from a header whose other fields are readable sends the whole block
  to the average values, so the ACT factor changes.
\<close>

theorem calc_factor_ACT_counterexample:
  "calc_factor (example_header (Inr 70) (time_of_day 10 0 0 0) (time_of_day 9 0 0 0)
      (Inr 6588) (Inr 100000000)) ''ACT''
   \<noteq> calc_factor (example_header (Inr 70) (time_of_day 10 0 0 0) (time_of_day 9 0 0 0)
      (Inr 6588) (Inl AttributeError)) ''ACT''"
proof -
  have a: "calc_factor (example_header (Inr 70) (time_of_day 10 0 0 0) (time_of_day 9 0 0 0)
      (Inr 6588) (Inr 100000000)) ''ACT'' = Finite (1 / exp (- ln 2 * (3600 / 6588)))"
    by (simp add: calc_factor_def decay_block_def decay_from_header_def sequence_item0_def
        float_truediv_def patient_weight_def np_true_divide_def example_header_def Let_def example_timedelta_whole)
  have b: "calc_factor (example_header (Inr 70) (time_of_day 10 0 0 0) (time_of_day 9 0 0 0)
      (Inr 6588) (Inl AttributeError)) ''ACT'' = Finite (1 / exp (- ln 2 * 6300 / 6588))"
    by (simp add: calc_factor_def decay_block_def decay_from_header_def sequence_item0_def
        float_truediv_def patient_weight_def np_true_divide_def example_header_def Let_def
        decay_average_def)
  have ne: "exp (- ln 2 * (3600 / 6588)) \<noteq> exp (- ln 2 * 6300 / (6588 :: real))"
    by simp
  have "(1 / exp (- ln 2 * (3600 / 6588)) :: real) \<noteq> 1 / exp (- ln 2 * 6300 / 6588)"
    using ne by (simp add: field_simps)
  then show ?thesis by (simp add: a b)
qed



text \<open>
  \<^bold>\<open>Claim C10\<close>. The body of the second \<^verbatim>\<open>try\<close> raises exactly when a field of the
  block is absent or unreadable, the sequence is empty, or the half-life is zero (a
  \<^verbatim>\<open>ZeroDivisionError\<close>); every such error is replaced by the average values. The
  computation in \<^verbatim>\<open>float64\<close> raises on the same headers, and there too the error is
  replaced by the average values.
\<close>

theorem decay_block_catches_every_error:
  "(isl (decay_from_header d) \<longleftrightarrow>
      isl (AcquisitionTime d) \<or> isl (RadiopharmaceuticalInformationSequence d)
      \<or> RadiopharmaceuticalInformationSequence d = Inr []
      \<or> (\<exists>item rest. RadiopharmaceuticalInformationSequence d = Inr (item # rest)
           \<and> (isl (RadiopharmaceuticalStartTime item) \<or> isl (RadionuclideHalfLife item)
              \<or> isl (RadionuclideTotalDose item) \<or> RadionuclideHalfLife item = Inr 0)))
   \<and> (isl (decay_from_header d) \<longrightarrow>
        decay_block d
        = (exp (- ln 2 * 6300 / 6588), 420000000 * exp (- ln 2 * 6300 / 6588)))
   \<and> isl (decay_from_header_float64 d) = isl (decay_from_header d)
   \<and> (isl (decay_from_header_float64 d) \<longrightarrow> decay_block_float64 d = decay_average_float64)"
proof -
  have fallback: "decay_block d
        = (exp (- ln 2 * 6300 / 6588), 420000000 * exp (- ln 2 * 6300 / 6588))"
    if "isl (decay_from_header d)"
    using that by (cases "decay_from_header d") (simp_all add: decay_block_def decay_average_eq)
  have same: "isl (decay_from_header_float64 d) = isl (decay_from_header d)"
    by (auto simp add: decay_from_header_float64_def decay_from_header_def sequence_item0_def
        float_truediv_def float_truediv_float64_def Let_def bind_result_def
        split: sum.splits list.splits)
  have fallback64: "decay_block_float64 d = decay_average_float64"
    if "isl (decay_from_header_float64 d)"
    using that by (cases "decay_from_header_float64 d") (simp_all add: decay_block_float64_def)
  show ?thesis
    using fallback same fallback64 decay_from_header_isl [of d] by blast
qed

theorem decay_block_catches_every_error_witness:
  "RadionuclideHalfLife \<lparr>RadiopharmaceuticalStartTime = Inr (time_of_day 9 0 0 0),
        RadionuclideHalfLife = Inr 0, RadionuclideTotalDose = Inr 100000000\<rparr> = Inr 0
   \<and> decay_from_header (example_header (Inr 70) (time_of_day 10 0 0 0) (time_of_day 9 0 0 0)
        (Inr 0) (Inr 100000000)) = Inl ZeroDivisionError
   \<and> decay_block (example_header (Inr 70) (time_of_day 10 0 0 0) (time_of_day 9 0 0 0)
        (Inr 0) (Inr 100000000))
     = (exp (- ln 2 * 6300 / 6588), 420000000 * exp (- ln 2 * 6300 / 6588))
   \<and> decay_block_float64 (example_header (Inr 70) (time_of_day 10 0 0 0) (time_of_day 9 0 0 0)
        (Inr 0) (Inr 100000000)) = decay_average_float64"
proof -
  have z: "decay_from_header (example_header (Inr 70) (time_of_day 10 0 0 0) (time_of_day 9 0 0 0)
        (Inr 0) (Inr 100000000)) = Inl ZeroDivisionError"
    by (simp add: decay_from_header_def sequence_item0_def float_truediv_def example_header_def)
  show ?thesis
    using z decay_block_catches_every_error [of
        "example_header (Inr 70) (time_of_day 10 0 0 0) (time_of_day 9 0 0 0) (Inr 0) (Inr 100000000)"]
    by simp
qed

section \<open>The union mask\<close>

lemma traverse_eq_Inr:
  "traverse f xs = Inr ys \<longleftrightarrow> map f xs = map Inr ys"
proof (induction xs arbitrary: ys)
  case Nil
  then show ?case by auto
next
  case (Cons x xs)
  show ?case
  proof (cases "f x")
    case (Inl e)
    then show ?thesis by (cases ys) auto
  next
    case (Inr y)
    show ?thesis
    proof (cases "traverse f xs")
      case (Inl e)
      then have "\<And>zs. map f xs \<noteq> map Inr zs" using Cons.IH by auto
      with Inl Inr show ?thesis by (cases ys) auto
    next
      case r: (Inr zs)
      then have "map f xs = map Inr zs" using Cons.IH by simp
      with r Inr show ?thesis
        by (cases ys) (auto simp add: inj_map_eq_map)
    qed
  qed
qed



lemma traverse_Inr_nth:
  "traverse f xs = Inr ys \<Longrightarrow> y \<in> set ys \<Longrightarrow> \<exists>x \<in> set xs. f x = Inr y"
proof (induction xs arbitrary: ys)
  case Nil
  then show ?case by simp
next
  case (Cons x xs)
  then show ?case
    by (auto simp add: bind_result_Inr_iff)
qed









lemma to_np_float64_count:
  assumes "is_count K a" and "K \<le> 2 ^ 53"
  shows "to_np_float float64 a = Finite a"
proof -
  from assms(1) have a: "a = real_of_int \<lfloor>a\<rfloor>" and rng: "0 \<le> a" "a \<le> K"
    by (auto simp add: is_count_def)
  from rng assms(2) have "a \<le> 2 ^ 53" by simp
  then have "real_of_int \<lfloor>a\<rfloor> \<le> real_of_int (2 ^ 53)" using a by simp
  then have le: "\<lfloor>a\<rfloor> \<le> 2 ^ 53" by (simp only: of_int_le_iff)
  have ge: "0 \<le> \<lfloor>a\<rfloor>" using rng by simp
  have "float_round float64 (real_of_int \<lfloor>a\<rfloor>) = real_of_int \<lfloor>a\<rfloor>"
    using le ge by (intro float_round_of_int) (simp_all add: float64_def)
  then have fr: "float_round float64 a = a" using a by simp
  have "\<bar>a\<bar> < 2 powi (emax float64 + 1)"
  proof -
    have "(2::real) ^ 53 < 2 ^ 1024" by (rule power_strict_increasing) simp_all
    then have "a < 2 ^ 1024" using \<open>a \<le> 2 ^ 53\<close> by linarith
    then show ?thesis using rng by (simp add: float64_def)
  qed
  then show ?thesis
    by (intro to_np_float_Finite [THEN trans]) (simp_all add: fr)
qed




lemma broadcast_axis_length: "broadcast_axis n xs = Inr ys \<Longrightarrow> length ys = n"
  by (auto simp add: broadcast_axis_def split: if_splits list.splits)

lemma broadcast_axis_set: "broadcast_axis n xs = Inr ys \<Longrightarrow> set ys \<subseteq> set xs"
  by (auto simp add: broadcast_axis_def split: if_splits list.splits)






lemma to_np_float64_small:
  "to_np_float float64 0 = Finite 0"
  "to_np_float float64 1 = Finite 1"
  "to_np_float float64 255 = Finite 255"
  "to_np_float float64 256 = Finite 256"
  "to_np_float float64 2 = Finite 2"
  using to_np_float64_count [of 256 0] to_np_float64_count [of 256 1]
    to_np_float64_count [of 256 255] to_np_float64_count [of 256 256]
    to_np_float64_count [of 256 2]
  by (simp_all add: is_count_def)

lemma example_zeros:
  "zeros (10, 4, 4)
   = [plane (Finite 0), plane (Finite 0), plane (Finite 0), plane (Finite 0), plane (Finite 0),
      plane (Finite 0), plane (Finite 0), plane (Finite 0), plane (Finite 0), plane (Finite 0)]"
  by (simp add: zeros_def plane_def numeral_eq_Suc)

lemma example_masks:
  "get_tiff_masks_as_numpy example_world
     [''/data/left.tif'', ''/data/nasal.tif'', ''/data/right.tif''] (10, 4, 4) 0.5
   = Inr example_mask"
  by (simp add: get_tiff_masks_as_numpy_def example_world_def broadcast_to_def broadcast_axis_def
      flip0_def add3_def example_zeros where_gt_def map3_def plane_def example_mask_def
      to_np_float64_small)







section \<open>The loader\<close>

lemma from_dicom_pet_reads:
  assumes "read_image w path series_id = Inr pet"
    and "listdir w path = Inr (name # names)"
    and "dcmread w (Path_as_posix w path name) = Inr d"
  shows "from_dicom_pet w path series_id type =
           bind_result (float_operand w (fst (factor_and_calc d type)))
             (\<lambda>f. Inr \<lparr>img_pet = abs_times pet f, df = d, factor = fst (factor_and_calc d type),
                        calc = snd (factor_and_calc d type)\<rparr>)"
  using assms by (simp add: from_dicom_pet_def split_beta)

lemma from_dicom_pet_Inr:
  assumes "from_dicom_pet w path series_id type = Inr r"
  shows "\<exists>pet name names f.
           read_image w path series_id = Inr pet
         \<and> listdir w path = Inr (name # names)
         \<and> dcmread w (Path_as_posix w path name) = Inr (df r)
         \<and> factor_and_calc (df r) type = (factor r, calc r)
         \<and> float_operand w (factor r) = Inr f
         \<and> img_pet r = abs_times pet f"
proof -
  from assms obtain pet where 1: "read_image w path series_id = Inr pet"
    by (cases "read_image w path series_id") (simp_all add: from_dicom_pet_def)
  from assms 1 obtain ns where 2: "listdir w path = Inr ns"
    by (cases "listdir w path") (simp_all add: from_dicom_pet_def)
  from assms 1 2 obtain name names where 3: "ns = name # names"
    by (cases ns) (simp_all add: from_dicom_pet_def)
  from assms 1 2 3 obtain d where 4: "dcmread w (Path_as_posix w path name) = Inr d"
    by (cases "dcmread w (Path_as_posix w path name)") (simp_all add: from_dicom_pet_def)
  obtain v c where 5: "factor_and_calc d type = (v, c)"
    by (cases "factor_and_calc d type") auto
  from assms 1 2 3 4 5 obtain f where 6: "float_operand w v = Inr f"
    by (cases "float_operand w v") (simp_all add: from_dicom_pet_def)
  from assms 1 2 3 4 5 6 have r: "r = \<lparr>img_pet = abs_times pet f, df = d, factor = v, calc = c\<rparr>"
    by (simp add: from_dicom_pet_def)
  show ?thesis
    using 1 2 3 4 5 6 by (simp add: r)
qed

lemma float_operand_Resample:
  "float_operand (w\<lparr>Resample := rs\<rparr>) v = float_operand w v"
  by (cases v) (simp_all add: float_operand_def)

lemma from_dicom_pet_Resample:
  "from_dicom_pet (w\<lparr>Resample := rs\<rparr>) path series_id type = from_dicom_pet w path series_id type"
  by (simp add: from_dicom_pet_def float_operand_Resample)

lemma example_load_pet: "from_dicom_pet example_world ''/data/pet'' None ''SUV'' =
  Inr \<lparr>img_pet = abs_times example_pet (Finite 2), df = tagged_header (JNumber (Finite 2)),
       factor = JNumber (Finite 2), calc = False\<rparr>"
  by (simp add: from_dicom_pet_def example_world_def factor_and_calc_def vendor_factor_def
      tagged_header_def float_operand_def)

lemma example_load_ct: "from_dicom_pet example_world ''/data/ct'' None ''SUV'' =
  Inr \<lparr>img_pet = abs_times example_ct (Finite (- 3)), df = tagged_header (JString ''-3''),
       factor = JString ''-3'', calc = False\<rparr>"
  by (simp add: from_dicom_pet_def example_world_def factor_and_calc_def vendor_factor_def
      tagged_header_def float_operand_def)

lemma example_reads_act:
  "read_image example_world ''/data/act'' None = Inr example_ct"
  "listdir example_world ''/data/act'' = Inr [''1.dcm'']"
  "dcmread example_world (Path_as_posix example_world ''/data/act'' ''1.dcm'') = Inr full_header"
  by (simp_all add: example_world_def)

lemma example_reads_pet:
  "read_image example_world ''/data/pet'' None = Inr example_pet"
  "listdir example_world ''/data/pet'' = Inr [''1.dcm'']"
  "dcmread example_world (Path_as_posix example_world ''/data/pet'' ''1.dcm'')
     = Inr (tagged_header (JNumber (Finite 2)))"
  by (simp_all add: example_world_def)

lemma full_header_fields:
  "isl (vendor_factor full_header ''SUV'')"
  "\<not> isl (PatientWeight full_header)"
  "\<not> isl (decay_from_header_float64 full_header)"
  by (simp_all add: full_header_def example_header_def vendor_factor_def
      decay_from_header_float64_def sequence_item0_def float_truediv_float64_def Let_def)

text \<open>
  \<^bold>\<open>Claim C5\<close>. The specification's flag \<open>measured_vs_assumed\<close> is the negation of the
  source's \<^verbatim>\<open>calc\<close>. Take a series whose image, directory and first header can be read.
  If the private tag is present and its value can multiply an image, the load returns the
  scaled image with the stored value and \<^verbatim>\<open>calc = False\<close>. If the private tag cannot be
  read, the load returns the image scaled by the factor that \<^verbatim>\<open>calc_factor\<close> computes,
  with \<^verbatim>\<open>calc = True\<close>. So for every result the flag is true exactly when the factor
  was read from the tag, and false exactly when \<^verbatim>\<open>calc_factor\<close> (the only place where
  the fallback constants are used) computed it; it is false as well when the tag is absent
  and every header field is readable.
\<close>

theorem from_dicom_pet_flag:
  assumes "read_image w path series_id = Inr pet"
    and "listdir w path = Inr (name # names)"
    and "dcmread w (Path_as_posix w path name) = Inr d"
  shows "(\<forall>v f. vendor_factor d type = Inr v \<and> float_operand w v = Inr f \<longrightarrow>
            from_dicom_pet w path series_id type
            = Inr \<lparr>img_pet = abs_times pet f, df = d, factor = v, calc = False\<rparr>)
       \<and> (isl (vendor_factor d type) \<longrightarrow>
            from_dicom_pet w path series_id type
            = Inr \<lparr>img_pet = abs_times pet (calc_factor_float64 d type), df = d,
                   factor = JNumber (calc_factor_float64 d type), calc = True\<rparr>)
       \<and> (\<forall>r. from_dicom_pet w path series_id type = Inr r \<longrightarrow>
            (measured_vs_assumed r \<longleftrightarrow> \<not> calc r)
          \<and> (measured_vs_assumed r \<longleftrightarrow> vendor_factor d type = Inr (factor r))
          \<and> (\<not> measured_vs_assumed r \<longleftrightarrow>
               isl (vendor_factor d type) \<and> factor r = JNumber (calc_factor_float64 d type)))
       \<and> (isl (vendor_factor d type) \<and> \<not> isl (PatientWeight d)
            \<and> \<not> isl (decay_from_header_float64 d) \<longrightarrow>
            (\<exists>r. from_dicom_pet w path series_id type = Inr r \<and> \<not> measured_vs_assumed r))"
proof -
  note load = from_dicom_pet_reads [OF assms, of type]
  have tag: "from_dicom_pet w path series_id type
            = Inr \<lparr>img_pet = abs_times pet f, df = d, factor = v, calc = False\<rparr>"
    if "vendor_factor d type = Inr v" "float_operand w v = Inr f" for v f
    using that by (simp add: load factor_and_calc_def)
  have comp: "from_dicom_pet w path series_id type
            = Inr \<lparr>img_pet = abs_times pet (calc_factor_float64 d type), df = d,
                   factor = JNumber (calc_factor_float64 d type), calc = True\<rparr>"
    if "isl (vendor_factor d type)"
    using that
    by (cases "vendor_factor d type") (simp_all add: load factor_and_calc_def float_operand_def)
  have flag: "(measured_vs_assumed r \<longleftrightarrow> \<not> calc r)
          \<and> (measured_vs_assumed r \<longleftrightarrow> vendor_factor d type = Inr (factor r))
          \<and> (\<not> measured_vs_assumed r \<longleftrightarrow>
               isl (vendor_factor d type) \<and> factor r = JNumber (calc_factor_float64 d type))"
    if r: "from_dicom_pet w path series_id type = Inr r" for r
  proof (cases "vendor_factor d type")
    case (Inl e)
    then have "isl (vendor_factor d type)" by simp
    from comp [OF this] r Inl show ?thesis
      by (auto simp add: measured_vs_assumed_def)
  next
    case (Inr v)
    with r obtain f where "float_operand w v = Inr f"
      by (cases "float_operand w v") (simp_all add: load factor_and_calc_def)
    from tag [OF Inr this] r Inr show ?thesis
      by (auto simp add: measured_vs_assumed_def)
  qed
  have full: "\<exists>r. from_dicom_pet w path series_id type = Inr r \<and> \<not> measured_vs_assumed r"
    if "isl (vendor_factor d type)"
    using comp [OF that] by (simp add: measured_vs_assumed_def)
  show ?thesis
    using tag comp flag full by blast
qed

theorem from_dicom_pet_flag_witness:
  "isl (vendor_factor full_header ''SUV'') \<and> \<not> isl (PatientWeight full_header)
   \<and> \<not> isl (decay_from_header_float64 full_header)
   \<and> from_dicom_pet example_world ''/data/act'' None ''SUV''
     = Inr \<lparr>img_pet = abs_times example_ct (calc_factor_float64 full_header ''SUV''),
            df = full_header, factor = JNumber (calc_factor_float64 full_header ''SUV''),
            calc = True\<rparr>
   \<and> \<not> measured_vs_assumed
        \<lparr>img_pet = abs_times example_ct (calc_factor_float64 full_header ''SUV''),
         df = full_header, factor = JNumber (calc_factor_float64 full_header ''SUV''),
         calc = True\<rparr>
   \<and> vendor_factor (tagged_header (JNumber (Finite 2))) ''SUV'' = Inr (JNumber (Finite 2))
   \<and> from_dicom_pet example_world ''/data/pet'' None ''SUV''
     = Inr \<lparr>img_pet = abs_times example_pet (Finite 2), df = tagged_header (JNumber (Finite 2)),
            factor = JNumber (Finite 2), calc = False\<rparr>
   \<and> measured_vs_assumed
        \<lparr>img_pet = abs_times example_pet (Finite 2), df = tagged_header (JNumber (Finite 2)),
         factor = JNumber (Finite 2), calc = False\<rparr>"
proof -
  have v: "vendor_factor (tagged_header (JNumber (Finite 2))) ''SUV'' = Inr (JNumber (Finite 2))"
    by (simp add: vendor_factor_def tagged_header_def)
  have f: "float_operand example_world (JNumber (Finite 2)) = Inr (Finite 2)"
    by (simp add: float_operand_def)
  from from_dicom_pet_flag [OF example_reads_act, of "''SUV''"]
    from_dicom_pet_flag [OF example_reads_pet, of "''SUV''"] full_header_fields v f
  show ?thesis
    by (simp add: measured_vs_assumed_def)
qed

section \<open>The pipeline for one patient\<close>

lemma get_reg_numpy_B2A_Inr:
  assumes "get_reg_numpy_B2A w path_A path_B True = Inr (A, B)"
  shows "\<exists>loaded_A loaded_B img_B.
           from_dicom_pet w path_A None ''SUV'' = Inr loaded_A
         \<and> from_dicom_pet w path_B None ''SUV'' = Inr loaded_B
         \<and> Resample w (img_pet loaded_B) (img_pet loaded_A) = Inr img_B
         \<and> norm_np float32 (voxels (img_pet loaded_A)) = Inr A
         \<and> norm_np float32 (voxels img_B) = Inr B"
proof -
  from assms obtain la where 1: "from_dicom_pet w path_A None ''SUV'' = Inr la"
    by (cases "from_dicom_pet w path_A None ''SUV''") (simp_all add: get_reg_numpy_B2A_def)
  from assms 1 obtain lb where 2: "from_dicom_pet w path_B None ''SUV'' = Inr lb"
    by (cases "from_dicom_pet w path_B None ''SUV''") (simp_all add: get_reg_numpy_B2A_def)
  from assms 1 2 obtain ib where 3: "Resample w (img_pet lb) (img_pet la) = Inr ib"
    by (cases "Resample w (img_pet lb) (img_pet la)") (simp_all add: get_reg_numpy_B2A_def)
  from assms 1 2 3 obtain a where 4: "norm_np float32 (voxels (img_pet la)) = Inr a"
    by (cases "norm_np float32 (voxels (img_pet la))") (simp_all add: get_reg_numpy_B2A_def Let_def)
  from assms 1 2 3 4 obtain b where 5: "norm_np float32 (voxels ib) = Inr b"
    by (cases "norm_np float32 (voxels ib)") (simp_all add: get_reg_numpy_B2A_def Let_def)
  from assms 1 2 3 4 5 have "a = A" "b = B"
    by (simp_all add: get_reg_numpy_B2A_def Let_def)
  with 1 2 3 4 5 show ?thesis by blast
qed

lemma patient_arrays_Inr:
  assumes "patient_arrays w root_path (p0 # p1 # p2 # p3 # p4 # ps) = Inr (PET, CT, msk)"
  shows "get_reg_numpy_B2A w (root_path @ p1) (root_path @ p0) True = Inr (PET, CT)
       \<and> get_tiff_masks_as_numpy w
            [root_path @ p2 @ ''.tif'', root_path @ p3 @ ''.tif'', root_path @ p4 @ ''.tif'']
            (shape3 PET) 0.5 = Inr msk"
proof -
  let ?g = "get_reg_numpy_B2A w (root_path @ p1) (root_path @ p0) True"
  from assms obtain A B where 1: "?g = Inr (A, B)"
    by (cases ?g) (auto simp add: patient_arrays_def Let_def)
  let ?m = "get_tiff_masks_as_numpy w
            [root_path @ p2 @ ''.tif'', root_path @ p3 @ ''.tif'', root_path @ p4 @ ''.tif'']
            (shape3 A) 0.5"
  from assms 1 obtain m where 2: "?m = Inr m"
    by (cases ?m) (simp_all add: patient_arrays_def Let_def)
  from assms 1 2 have "A = PET" "B = CT" "m = msk"
    by (simp_all add: patient_arrays_def Let_def)
  with 1 2 show ?thesis by simp
qed

lemma to_np_float32_int:
  assumes "\<bar>n\<bar> \<le> 2 ^ 24"
  shows "to_np_float float32 (of_int n) = Finite (of_int n)"
proof -
  have fr: "float_round float32 (of_int n) = of_int n"
    using assms by (intro float_round_of_int) (simp_all add: float32_def)
  have "\<bar>real_of_int n\<bar> \<le> 2 ^ 24" using assms by (metis of_int_abs of_int_le_iff of_int_numeral of_int_power)
  moreover have "(2::real) ^ 24 < 2 ^ 128" by (rule power_strict_increasing) simp_all
  ultimately have "\<bar>real_of_int n\<bar> < 2 powi (emax float32 + 1)"
    by (simp add: float32_def)
  then show ?thesis
    by (intro to_np_float_Finite [THEN trans]) (simp_all add: fr)
qed

lemma to_np_float32_dyadic:
  "to_np_float float32 (1 / 2) = Finite (1 / 2)"
  "to_np_float float32 (1 / 4) = Finite (1 / 4)"
proof -
  have a: "float_round float32 (1 / 2) = 1 / 2" "float_round float32 (1 / 4) = 1 / 4"
    using float_round_fixed [of float32 1 "- 1"] float_round_fixed [of float32 1 "- 2"]
    by (simp_all add: float32_def power_int_minus)
  have big: "(1::real) < 2 powi (emax float32 + 1)"
    using pow_emax_gt_one [of float32] by simp
  show "to_np_float float32 (1 / 2) = Finite (1 / 2)"
    using big a by (intro to_np_float_Finite [THEN trans]) simp_all
  show "to_np_float float32 (1 / 4) = Finite (1 / 4)"
    using big a by (intro to_np_float_Finite [THEN trans]) simp_all
qed

lemma to_np_float32_small:
  "to_np_float float32 0 = Finite 0"
  "to_np_float float32 1 = Finite 1"
  "to_np_float float32 2 = Finite 2"
  "to_np_float float32 3 = Finite 3"
  "to_np_float float32 4 = Finite 4"
  "to_np_float float32 16 = Finite 16"
  "to_np_float float32 (- 3) = Finite (- 3)"
  "to_np_float float32 (- 6) = Finite (- 6)"
  "to_np_float float32 (- 9) = Finite (- 9)"
  "to_np_float float32 (- 12) = Finite (- 12)"
  using to_np_float32_int [of 0] to_np_float32_int [of 1] to_np_float32_int [of 2]
    to_np_float32_int [of 3] to_np_float32_int [of 4] to_np_float32_int [of 16]
    to_np_float32_int [of "- 3"] to_np_float32_int [of "- 6"] to_np_float32_int [of "- 9"]
    to_np_float32_int [of "- 12"]
  by simp_all

lemma example_pet_scaled:
  "voxels (abs_times example_pet (Finite 2))
   = [plane (Finite 0), plane (Finite 2), plane (Finite 4), plane (Finite 2), plane (Finite 0),
      plane (Finite 2), plane (Finite 4), plane (Finite 2), plane (Finite 0), plane (Finite 4)]"
  by (simp add: abs_times_def example_pet_def map3_def plane_def to_np_float32_small)

lemma example_ct_scaled:
  "voxels (abs_times example_ct (Finite (- 3)))
   = [[[Finite 3, Finite 6], [Finite 9, Finite 12]]]"
  by (simp add: abs_times_def example_ct_def map3_def to_np_float32_small)

lemma example_ct_resampled:
  "Resample example_world (abs_times example_ct (Finite (- 3))) (abs_times example_pet (Finite 2))
   = Inr \<lparr>voxels =
            [plane (Finite 3), plane (Finite 7), plane (Finite 19), plane (Finite 7),
             plane (Finite 3), plane (Finite 7), plane (Finite 19), plane (Finite 7),
             plane (Finite 3), plane (Finite 19)],
          geometry = ()\<rparr>"
proof -
  have g: "abs_times example_pet (Finite 2)
      = \<lparr>voxels = voxels (abs_times example_pet (Finite 2)), geometry = ()\<rparr>"
    by simp
  show ?thesis
    by (subst g, simp only: example_pet_scaled)
      (simp add: example_world_def example_ct_scaled map3_def plane_def ravel_def)
qed

lemma example_norm_pet:
  "norm_np float32
     [plane (Finite 0), plane (Finite 2), plane (Finite 4), plane (Finite 2), plane (Finite 0),
      plane (Finite 2), plane (Finite 4), plane (Finite 2), plane (Finite 0), plane (Finite 4)]
   = Inr example_normalized"
  using to_np_float32_small to_np_float32_dyadic
  by (simp add: norm_np_def amin_def amax_def ravel_def plane_def map3_def np_subtract_def
      example_normalized_def)

lemma example_norm_ct:
  "norm_np float32
     [plane (Finite 3), plane (Finite 7), plane (Finite 19), plane (Finite 7),
      plane (Finite 3), plane (Finite 7), plane (Finite 19), plane (Finite 7),
      plane (Finite 3), plane (Finite 19)]
   = Inr example_normalized_ct"
  using to_np_float32_small to_np_float32_dyadic
  by (simp add: norm_np_def amin_def amax_def ravel_def plane_def map3_def np_subtract_def
      example_normalized_ct_def)

lemma example_get_reg:
  "get_reg_numpy_B2A example_world ''/data/pet'' ''/data/ct'' True
   = Inr (example_normalized, example_normalized_ct)"
  by (simp add: get_reg_numpy_B2A_def example_load_pet example_load_ct example_ct_resampled
      example_pet_scaled example_norm_pet example_norm_ct)

lemma example_shape: "shape3 example_normalized = (10, 4, 4)"
  by (simp add: shape3_def example_normalized_def plane_def)

lemma example_patient_arrays:
  "patient_arrays example_world ''/data/'' example_patient
   = Inr (example_normalized, example_normalized_ct, example_mask)"
  using example_masks
  by (simp add: patient_arrays_def example_patient_def example_get_reg example_shape)

lemma example_arrays_differ: "example_normalized \<noteq> example_normalized_ct"
  by (simp add: example_normalized_def example_normalized_ct_def plane_def)

text \<open>
  \<^bold>\<open>Claim C2\<close>. For a patient record \<^verbatim>\<open>(ct, pet, ...)\<close> whose arrays are returned, the
  PET series was loaded by \<^verbatim>\<open>from_dicom_pet\<close> in SUV mode and is the reference. The
  CT series was loaded by the same loader: every voxel of the loaded CT image is the
  absolute value of the \<^verbatim>\<open>float32\<close> product of the CT voxel and the SUV factor of the CT
  header (read from the private tag, or computed by \<^verbatim>\<open>calc_factor\<close>). The loaded CT
  image is then resampled onto the loaded PET image. The PET array is the normalised
  loaded PET image and the CT array is the normalised resampled image; the PET array is
  the same whatever the resampler returns.
\<close>

theorem patient_arrays_pet_is_reference:
  assumes "patient_arrays w root_path (p0 # p1 # p2 # p3 # p4 # ps) = Inr (PET, CT, msk)"
  shows "\<exists>raw_pet raw_ct loaded_pet loaded_ct f_pet f_ct resampled_ct.
           read_image w (root_path @ p1) None = Inr raw_pet
         \<and> read_image w (root_path @ p0) None = Inr raw_ct
         \<and> from_dicom_pet w (root_path @ p1) None ''SUV'' = Inr loaded_pet
         \<and> from_dicom_pet w (root_path @ p0) None ''SUV'' = Inr loaded_ct
         \<and> float_operand w (factor loaded_pet) = Inr f_pet
         \<and> float_operand w (factor loaded_ct) = Inr f_ct
         \<and> (vendor_factor (df loaded_ct) ''SUV'' = Inr (factor loaded_ct)
              \<or> isl (vendor_factor (df loaded_ct) ''SUV'')
                \<and> factor loaded_ct = JNumber (calc_factor_float64 (df loaded_ct) ''SUV''))
         \<and> voxels (img_pet loaded_pet)
             = map3 (\<lambda>v. np_absolute (np_multiply float32 (cast_to float32 v) f_pet))
                 (voxels raw_pet)
         \<and> voxels (img_pet loaded_ct)
             = map3 (\<lambda>v. np_absolute (np_multiply float32 (cast_to float32 v) f_ct))
                 (voxels raw_ct)
         \<and> geometry (img_pet loaded_pet) = geometry raw_pet
         \<and> geometry (img_pet loaded_ct) = geometry raw_ct
         \<and> Resample w (img_pet loaded_ct) (img_pet loaded_pet) = Inr resampled_ct
         \<and> norm_np float32 (voxels (img_pet loaded_pet)) = Inr PET
         \<and> norm_np float32 (voxels resampled_ct) = Inr CT
         \<and> (\<forall>rs PET' CT' msk'.
               patient_arrays (w\<lparr>Resample := rs\<rparr>) root_path (p0 # p1 # p2 # p3 # p4 # ps)
                 = Inr (PET', CT', msk') \<longrightarrow> PET' = PET)"
proof -
  from patient_arrays_Inr [OF assms]
  have "get_reg_numpy_B2A w (root_path @ p1) (root_path @ p0) True = Inr (PET, CT)"
    by simp
  from get_reg_numpy_B2A_Inr [OF this]
  obtain la lb ib where l: "from_dicom_pet w (root_path @ p1) None ''SUV'' = Inr la"
    "from_dicom_pet w (root_path @ p0) None ''SUV'' = Inr lb"
    "Resample w (img_pet lb) (img_pet la) = Inr ib"
    "norm_np float32 (voxels (img_pet la)) = Inr PET" "norm_np float32 (voxels ib) = Inr CT"
    by blast
  from from_dicom_pet_Inr [OF l(1)] obtain ra fa where
    ra: "read_image w (root_path @ p1) None = Inr ra" "float_operand w (factor la) = Inr fa"
      "img_pet la = abs_times ra fa"
    by blast
  from from_dicom_pet_Inr [OF l(2)] obtain rb fb where
    rb: "read_image w (root_path @ p0) None = Inr rb" "float_operand w (factor lb) = Inr fb"
      "img_pet lb = abs_times rb fb"
      "factor_and_calc (df lb) ''SUV'' = (factor lb, calc lb)"
    by blast
  have origin: "vendor_factor (df lb) ''SUV'' = Inr (factor lb)
              \<or> isl (vendor_factor (df lb) ''SUV'')
                \<and> factor lb = JNumber (calc_factor_float64 (df lb) ''SUV'')"
    using rb(4) by (cases "vendor_factor (df lb) ''SUV''") (auto simp add: factor_and_calc_def)
  have same: "PET' = PET"
    if "patient_arrays (w\<lparr>Resample := rs\<rparr>) root_path (p0 # p1 # p2 # p3 # p4 # ps)
          = Inr (PET', CT', msk')" for rs PET' CT' msk'
  proof -
    from patient_arrays_Inr [OF that]
    have "get_reg_numpy_B2A (w\<lparr>Resample := rs\<rparr>) (root_path @ p1) (root_path @ p0) True
        = Inr (PET', CT')"
      by simp
    from get_reg_numpy_B2A_Inr [OF this] l(1,4) show ?thesis
      by (auto simp add: from_dicom_pet_Resample)
  qed
  have "voxels (img_pet la)
          = map3 (\<lambda>v. np_absolute (np_multiply float32 (cast_to float32 v) fa)) (voxels ra)"
    "voxels (img_pet lb)
          = map3 (\<lambda>v. np_absolute (np_multiply float32 (cast_to float32 v) fb)) (voxels rb)"
    "geometry (img_pet la) = geometry ra" "geometry (img_pet lb) = geometry rb"
    by (simp_all add: ra(3) rb(3) abs_times_def)
  with l ra rb origin same show ?thesis
    by blast
qed

theorem patient_arrays_pet_is_reference_witness:
  "patient_arrays example_world ''/data/'' [''ct'', ''pet'', ''left'', ''nasal'', ''right'']
     = Inr (example_normalized, example_normalized_ct, example_mask)
   \<and> example_normalized \<noteq> example_normalized_ct
   \<and> voxels example_ct = [[[Finite 1, Finite 2], [Finite 3, Finite 4]]]
   \<and> (\<exists>loaded_pet loaded_ct resampled_ct.
         from_dicom_pet example_world ''/data/pet'' None ''SUV'' = Inr loaded_pet
       \<and> from_dicom_pet example_world ''/data/ct'' None ''SUV'' = Inr loaded_ct
       \<and> float_operand example_world (factor loaded_ct) = Inr (Finite (- 3))
       \<and> voxels (img_pet loaded_ct) = [[[Finite 3, Finite 6], [Finite 9, Finite 12]]]
       \<and> Resample example_world (img_pet loaded_ct) (img_pet loaded_pet) = Inr resampled_ct
       \<and> norm_np float32 (voxels (img_pet loaded_pet)) = Inr example_normalized
       \<and> norm_np float32 (voxels resampled_ct) = Inr example_normalized_ct)"
proof -
  have a: "patient_arrays example_world ''/data/'' [''ct'', ''pet'', ''left'', ''nasal'', ''right'']
     = Inr (example_normalized, example_normalized_ct, example_mask)"
    using example_patient_arrays by (simp add: example_patient_def)
  have f: "float_operand example_world (JString ''-3'') = Inr (Finite (- 3))"
    by (simp add: float_operand_def example_world_def)
  from patient_arrays_pet_is_reference [OF a]
  obtain loaded_pet loaded_ct resampled_ct where
    l: "from_dicom_pet example_world (''/data/'' @ ''pet'') None ''SUV'' = Inr loaded_pet"
      "from_dicom_pet example_world (''/data/'' @ ''ct'') None ''SUV'' = Inr loaded_ct"
      "Resample example_world (img_pet loaded_ct) (img_pet loaded_pet) = Inr resampled_ct"
      "norm_np float32 (voxels (img_pet loaded_pet)) = Inr example_normalized"
      "norm_np float32 (voxels resampled_ct) = Inr example_normalized_ct"
    by blast
  from l(2) have ct: "loaded_ct = \<lparr>img_pet = abs_times example_ct (Finite (- 3)),
      df = tagged_header (JString ''-3''), factor = JString ''-3'', calc = False\<rparr>"
    by (simp add: example_load_ct)
  have "float_operand example_world (factor loaded_ct) = Inr (Finite (- 3))"
    "voxels (img_pet loaded_ct) = [[[Finite 3, Finite 6], [Finite 9, Finite 12]]]"
    by (simp_all add: ct f example_ct_scaled)
  with l have "\<exists>loaded_pet loaded_ct resampled_ct.
         from_dicom_pet example_world ''/data/pet'' None ''SUV'' = Inr loaded_pet
       \<and> from_dicom_pet example_world ''/data/ct'' None ''SUV'' = Inr loaded_ct
       \<and> float_operand example_world (factor loaded_ct) = Inr (Finite (- 3))
       \<and> voxels (img_pet loaded_ct) = [[[Finite 3, Finite 6], [Finite 9, Finite 12]]]
       \<and> Resample example_world (img_pet loaded_ct) (img_pet loaded_pet) = Inr resampled_ct
       \<and> norm_np float32 (voxels (img_pet loaded_pet)) = Inr example_normalized
       \<and> norm_np float32 (voxels resampled_ct) = Inr example_normalized_ct"
    by (intro exI [of _ loaded_pet] exI [of _ loaded_ct] exI [of _ resampled_ct]) simp
  with a example_arrays_differ show ?thesis
    by (simp add: example_ct_def)
qed

section \<open>The shape of the batch\<close>

lemma has_shape3_map3: "has_shape3 s (map3 f x) = has_shape3 s x"
  by (cases s) (auto simp add: has_shape3_def map3_def)

lemma norm_np_shape:
  assumes "norm_np fmt x = Inr y"
  shows "has_shape3 s y = has_shape3 s x"
proof -
  from assms obtain f where "y = map3 f x"
    by (auto simp add: norm_np_def bind_result_Inr_iff)
  then show ?thesis by (simp add: has_shape3_map3)
qed

lemma abs_times_shape: "has_shape3 s (voxels (abs_times img f)) = has_shape3 s (voxels img)"
  by (simp add: abs_times_def has_shape3_map3)

lemma has_shape3_zeros: "has_shape3 s (zeros s)"
  by (cases s) (auto simp add: has_shape3_def zeros_def)

lemma broadcast_to_shape:
  assumes "broadcast_to s x = Inr b"
  shows "has_shape3 s b"
proof -
  obtain Z Y X where s: "s = (Z, Y, X)" by (cases s) auto
  let ?f = "\<lambda>p. bind_result (traverse (broadcast_axis X) p) (broadcast_axis Y)"
  from assms obtain ps where ps: "traverse ?f x = Inr ps" and b: "broadcast_axis Z ps = Inr b"
    by (auto simp add: broadcast_to_def s bind_result_Inr_iff)
  have len: "length b = Z" using b by (rule broadcast_axis_length)
  have planes: "length p = Y \<and> (\<forall>r \<in> set p. length r = X)" if "p \<in> set b" for p
  proof -
    from that broadcast_axis_set [OF b] have "p \<in> set ps" by auto
    from traverse_Inr_nth [OF ps this] obtain q where q: "?f q = Inr p" by blast
    then obtain rs where rs: "traverse (broadcast_axis X) q = Inr rs"
      and p: "broadcast_axis Y rs = Inr p"
      by (auto simp add: bind_result_Inr_iff)
    have "length r = X" if "r \<in> set p" for r
    proof -
      from that broadcast_axis_set [OF p] have "r \<in> set rs" by auto
      from traverse_Inr_nth [OF rs this] obtain r0 where "broadcast_axis X r0 = Inr r" by blast
      then show ?thesis by (rule broadcast_axis_length)
    qed
    with broadcast_axis_length [OF p] show ?thesis by simp
  qed
  show ?thesis
    using len planes by (simp add: has_shape3_def s)
qed

lemma has_shape3_add3:
  assumes "has_shape3 s x" and "has_shape3 s y"
  shows "has_shape3 s (add3 x y)"
proof -
  obtain Z Y X where s: "s = (Z, Y, X)" by (cases s) auto
  let ?f = "\<lambda>a v. np_add float64 a (to_np_float float64 v)"
  have "length (add3 x y) = Z"
    using assms by (simp add: has_shape3_def s add3_def)
  moreover have "length p = Y \<and> (\<forall>r \<in> set p. length r = X)" if "p \<in> set (add3 x y)" for p
  proof -
    from that obtain px py where pp: "(px, py) \<in> set (zip x y)" and p: "p = map2 (map2 ?f) px py"
      by (auto simp add: add3_def)
    from pp have px: "px \<in> set x" and py: "py \<in> set y"
      by (auto dest: set_zip_leftD set_zip_rightD)
    have "length r = X" if "r \<in> set p" for r
    proof -
      from that p obtain rx ry where rr: "(rx, ry) \<in> set (zip px py)" and r: "r = map2 ?f rx ry"
        by auto
      from rr have "rx \<in> set px" "ry \<in> set py"
        by (auto dest: set_zip_leftD set_zip_rightD)
      with px py assms show ?thesis by (auto simp add: has_shape3_def s r)
    qed
    moreover have "length p = Y"
      using px py assms by (auto simp add: has_shape3_def s p)
    ultimately show ?thesis by simp
  qed
  ultimately show ?thesis by (simp add: has_shape3_def s)
qed

lemma accumulate_masks_shape:
  "accumulate_masks w s acc paths = Inr m \<Longrightarrow> has_shape3 s acc \<Longrightarrow> has_shape3 s m"
proof (induction paths arbitrary: acc)
  case Nil
  then show ?case by simp
next
  case (Cons path paths)
  from Cons.prems(1) obtain img b where "imread w path = Inr img"
    and b: "broadcast_to s (flip0 img) = Inr b"
    and rest: "accumulate_masks w s (add3 acc b) paths = Inr m"
    by (auto simp add: bind_result_Inr_iff)
  from broadcast_to_shape [OF b] Cons.prems(2) have "has_shape3 s (add3 acc b)"
    by (simp add: has_shape3_add3)
  with rest show ?case by (rule Cons.IH)
qed

lemma get_tiff_masks_shape:
  assumes "get_tiff_masks_as_numpy w paths s epsilon = Inr m"
  shows "has_shape3 s m"
proof -
  from assms obtain a where a: "accumulate_masks w s (zeros s) paths = Inr a"
    and m: "m = where_gt epsilon a"
    by (auto simp add: get_tiff_masks_as_numpy_def bind_result_Inr_iff)
  from accumulate_masks_shape [OF a has_shape3_zeros] show ?thesis
    by (simp add: m where_gt_def has_shape3_map3)
qed

lemma has_shape3_of_shape3:
  assumes "has_shape3 (Z, Y, X) x" and "has_shape3 (shape3 x) m"
  shows "has_shape3 (Z, Y, X) m"
proof (cases x)
  case Nil
  with assms show ?thesis by (simp add: has_shape3_def shape3_def)
next
  case (Cons p ps)
  note x = Cons
  show ?thesis
  proof (cases p)
    case Nil
    with x assms show ?thesis by (auto simp add: has_shape3_def shape3_def)
  next
    case (Cons r rs)
    with x assms show ?thesis by (auto simp add: has_shape3_def shape3_def)
  qed
qed

lemma has_shape3_nth:
  assumes "has_shape3 (Z, Y, X) x" and "i < Z"
  shows "length (x ! i) = Y \<and> (\<forall>r \<in> set (x ! i). length r = X)"
proof -
  from assms have "x ! i \<in> set x" by (simp add: has_shape3_def)
  with assms(1) show ?thesis by (simp add: has_shape3_def)
qed

lemma moveaxis01_three:
  assumes "length P = Z" and "length C = Z" and "length M = Z"
  shows "moveaxis01 [P, C, M] = map (\<lambda>i. [P ! i, C ! i, M ! i]) [0..<Z]"
  using assms by (simp add: moveaxis01_def)

lemma patient_batch_shape:
  assumes b: "patient_batch w root_path patient = Inr b"
    and a: "patient_arrays w root_path patient = Inr (PET, CT, msk)"
    and P: "has_shape3 (Z, Y, X) PET" and C: "has_shape3 (Z, Y, X) CT"
  shows "length b = Z \<and> (\<forall>s \<in> set b. has_shape3 (3, Y, X) s)"
proof -
  let ?M = "map3 (\<lambda>n. Finite (real_of_int n)) msk"
  from a obtain p0 p1 p2 p3 p4 ps where patient: "patient = p0 # p1 # p2 # p3 # p4 # ps"
    by (auto simp add: patient_arrays_def split: list.splits)
  from patient_arrays_Inr [OF a [unfolded patient]]
  have "has_shape3 (shape3 PET) msk"
    by (auto dest: get_tiff_masks_shape)
  with P have "has_shape3 (Z, Y, X) msk" by (rule has_shape3_of_shape3)
  then have M: "has_shape3 (Z, Y, X) ?M"
    by (simp add: has_shape3_map3)
  from b a have bb: "b = moveaxis01 [PET, CT, ?M]"
    by (auto simp add: patient_batch_def stack3_def split: if_splits)
  have lens: "length PET = Z" "length CT = Z" "length ?M = Z"
    using P C M by (simp_all add: has_shape3_def)
  have eq: "b = map (\<lambda>i. [PET ! i, CT ! i, ?M ! i]) [0..<Z]"
    unfolding bb by (rule moveaxis01_three [OF lens])
  have "has_shape3 (3, Y, X) [PET ! i, CT ! i, ?M ! i]" if "i < Z" for i
    using that has_shape3_nth [OF P] has_shape3_nth [OF C] has_shape3_nth [OF M]
    by (simp add: has_shape3_def)
  then show ?thesis
    by (auto simp add: eq)
qed

lemma generate_data_single:
  "generate_data w root_path [patient] = map_sum id Some (patient_batch w root_path patient)"
  by (cases "patient_batch w root_path patient") (simp_all add: generate_data_def)

lemma example_patient_batch:
  "patient_batch example_world ''/data/'' example_patient = Inr example_batch"
proof -
  have "stack3 example_normalized example_normalized_ct example_mask
        = Inr [example_normalized, example_normalized_ct,
               map3 (\<lambda>n. Finite (real_of_int n)) example_mask]"
    by (simp add: stack3_def shape3_def example_normalized_def example_normalized_ct_def
        example_mask_def plane_def)
  then show ?thesis
    by (simp add: patient_batch_def example_patient_arrays example_batch_def)
qed

lemma example_generate_data:
  "generate_data example_world ''/data/'' [example_patient] = Inr (Some example_batch)"
  by (simp add: generate_data_single example_patient_batch)

lemma example_batch_shape:
  "map_sum id (map_option shape4) (generate_data example_world ''/data/'' [example_patient])
   = Inr (Some [10, 3, 4, 4])"
  by (simp add: generate_data_single patient_batch_def example_patient_arrays stack3_def
      example_shape shape3_def shape4_def moveaxis01_def example_mask_def map3_def
      example_normalized_def example_normalized_ct_def plane_def)

text \<open>
  \<^bold>\<open>Claim C1\<close> (as the code has it). Take a table of one patient whose PET series
  is read as a volume of shape \<open>[Z, Y, X]\<close>, and a resampler that returns its result
  on the grid of the reference. The batch returned is the array of that patient and has
  shape \<open>[Z, 3, Y, X]\<close>: \<open>Z\<close> slices, each with the three channels PET, CT and
  mask of shape \<open>[Y, X]\<close>.
\<close>

theorem generate_data_one_patient_shape:
  assumes g: "generate_data w root_path [p0 # p1 # p2 # p3 # p4 # ps] = Inr (Some b)"
    and raw: "read_image w (root_path @ p1) None = Inr raw_pet"
    and shape: "has_shape3 (Z, Y, X) (voxels raw_pet)"
    and grid: "\<And>moving reference out.
        Resample w moving reference = Inr out \<Longrightarrow> has_shape3 (Z, Y, X) (voxels reference)
        \<Longrightarrow> has_shape3 (Z, Y, X) (voxels out)"
  shows "patient_batch w root_path (p0 # p1 # p2 # p3 # p4 # ps) = Inr b
       \<and> length b = Z \<and> (\<forall>s \<in> set b. has_shape3 (3, Y, X) s)"
proof -
  let ?patient = "p0 # p1 # p2 # p3 # p4 # ps"
  from g have b: "patient_batch w root_path ?patient = Inr b"
    by (cases "patient_batch w root_path ?patient") (simp_all add: generate_data_single)
  then obtain PET CT msk where a: "patient_arrays w root_path ?patient = Inr (PET, CT, msk)"
    by (cases "patient_arrays w root_path ?patient") (auto simp add: patient_batch_def)
  from patient_arrays_Inr [OF a]
  have "get_reg_numpy_B2A w (root_path @ p1) (root_path @ p0) True = Inr (PET, CT)"
    by simp
  from get_reg_numpy_B2A_Inr [OF this]
  obtain la lb ib where l: "from_dicom_pet w (root_path @ p1) None ''SUV'' = Inr la"
    "from_dicom_pet w (root_path @ p0) None ''SUV'' = Inr lb"
    "Resample w (img_pet lb) (img_pet la) = Inr ib"
    "norm_np float32 (voxels (img_pet la)) = Inr PET" "norm_np float32 (voxels ib) = Inr CT"
    by blast
  from from_dicom_pet_Inr [OF l(1)] raw obtain f where "img_pet la = abs_times raw_pet f"
    by auto
  with shape have la: "has_shape3 (Z, Y, X) (voxels (img_pet la))"
    by (simp add: abs_times_shape)
  with l(4) have P: "has_shape3 (Z, Y, X) PET"
    by (simp add: norm_np_shape)
  from grid [OF l(3) la] l(5) have C: "has_shape3 (Z, Y, X) CT"
    by (simp add: norm_np_shape)
  from patient_batch_shape [OF b a P C] b show ?thesis by simp
qed

theorem generate_data_one_patient_shape_witness:
  "generate_data example_world ''/data/'' [[''ct'', ''pet'', ''left'', ''nasal'', ''right'']]
     = Inr (Some example_batch)
   \<and> read_image example_world ''/data/pet'' None = Inr example_pet
   \<and> has_shape3 (10, 4, 4) (voxels example_pet)
   \<and> length example_batch = 10
   \<and> has_shape3 (3, 4, 4) (example_batch ! 0)"
proof -
  have g: "generate_data example_world (''/data/'' @ []) [''ct'' # ''pet'' # ''left'' # ''nasal'' # ''right'' # []]
     = Inr (Some example_batch)"
    using example_generate_data by (simp add: example_patient_def)
  have r: "read_image example_world ((''/data/'' @ []) @ ''pet'') None = Inr example_pet"
    by (simp add: example_world_def)
  have s: "has_shape3 (10, 4, 4) (voxels example_pet)"
    by (simp add: has_shape3_def example_pet_def plane_def)
  have grid: "has_shape3 (10, 4, 4) (voxels out)"
    if "Resample example_world moving reference = Inr out"
      and "has_shape3 (10, 4, 4) (voxels reference)" for moving reference out
    using that by (auto simp add: example_world_def has_shape3_map3)
  have nth: "example_batch ! 0 \<in> set example_batch"
    by (simp add: example_batch_def moveaxis01_def example_normalized_def)
  from generate_data_one_patient_shape [OF g r s grid] nth g r s
  show ?thesis by simp
qed

text \<open>
  With \<open>Z = 10\<close>, \<open>Y = 4\<close>, \<open>X = 4\<close> the batch of one patient has shape
  \<open>[10, 3, 4, 4]\<close>, not \<open>[1, 3, 10, 4, 4]\<close>.
\<close>

theorem generate_data_shape_counterexample:
  "map_sum id (map_option shape4) (generate_data example_world ''/data/'' [example_patient])
     = Inr (Some [10, 3, 4, 4])
   \<and> map_sum id (map_option shape4) (generate_data example_world ''/data/'' [example_patient])
     \<noteq> Inr (Some [1, 3, 10, 4, 4])"
  by (simp add: example_batch_shape)

end
